theory Spec2Isabelle
  imports Main "HOL-Library.Word" "HOL-Library.Multiset"
begin

section \<open>FlashSentry: whitelist store, hash worker and verification orchestration\<close>

text \<open>
  A shallow embedding of the parts of FlashSentry that its specification makes claims
  about: \<^verbatim>\<open>Types.h\<close> (DeviceInfo, DeviceRecord, HashResult), \<^verbatim>\<open>DatabaseManager.cpp\<close>,
  \<^verbatim>\<open>HashWorker.cpp\<close> and the hash and eject handlers of \<^verbatim>\<open>MainWindow.cpp\<close>.

  Conventions. A \<^verbatim>\<open>QString\<close> is a \<open>string\<close>. A \<^verbatim>\<open>QHash\<close> is an association list with
  one entry per key; the order of the list stands for the (unspecified) iteration order of
  the hash table. A Qt signal that a method emits is an element of the list of signals
  the modelled method returns. Every clock reading, every outcome of a system call and
  every answer of the user is an argument of the function that consumes it.
\<close>

subsection \<open>Strings\<close>

type_synonym QString = string

text \<open>
  Case folding as \<^verbatim>\<open>Qt::CaseInsensitive\<close> applies it to the characters a hash string is
  made of: the ASCII capitals are mapped to the small letters.
\<close>

definition toCaseFolded :: "char \<Rightarrow> char" where
  "toCaseFolded c =
     (case map_of (zip ''ABCDEFGHIJKLMNOPQRSTUVWXYZ'' ''abcdefghijklmnopqrstuvwxyz'') c of
        Some l \<Rightarrow> l
      | None \<Rightarrow> c)"

text \<open>
  \<^verbatim>\<open>QString::compare(other, Qt::CaseInsensitive)\<close>: negative, zero or positive as the
  folded string sorts before, with or after the other one.
\<close>

fun compare_ci :: "QString \<Rightarrow> QString \<Rightarrow> int" where
  "compare_ci [] [] = 0"
| "compare_ci [] (y # ys) = -1"
| "compare_ci (x # xs) [] = 1"
| "compare_ci (x # xs) (y # ys) =
     (let a = (of_char (toCaseFolded x) :: nat); b = (of_char (toCaseFolded y) :: nat)
      in if a < b then -1 else if b < a then 1 else compare_ci xs ys)"

text \<open>\<^verbatim>\<open>QString::compare(other)\<close>, case sensitive.\<close>

fun compare_cs :: "QString \<Rightarrow> QString \<Rightarrow> int" where
  "compare_cs [] [] = 0"
| "compare_cs [] (y # ys) = -1"
| "compare_cs (x # xs) [] = 1"
| "compare_cs (x # xs) (y # ys) =
     (let a = (of_char x :: nat); b = (of_char y :: nat)
      in if a < b then -1 else if b < a then 1 else compare_cs xs ys)"

subsection \<open>Types.h\<close>

type_synonym uint64_t = "64 word"
type_synonym int32_t = "32 word"

record DeviceInfo =
  deviceNode :: QString
  parentDevice :: QString
  serial :: QString
  vendor :: QString
  model :: QString
  label :: QString
  fsType :: QString
  mountPoint :: QString
  sizeBytes :: uint64_t
  isRemovable :: bool
  isMounted :: bool

text \<open>The default-constructed \<^verbatim>\<open>DeviceInfo\<close>.\<close>

definition DeviceInfo_default :: DeviceInfo where
  "DeviceInfo_default =
     \<lparr>deviceNode = [], parentDevice = [], serial = [], vendor = [], model = [], label = [],
      fsType = [], mountPoint = [], sizeBytes = 0, isRemovable = True, isMounted = False\<rparr>"

text \<open>\<^verbatim>\<open>deviceNode.split('/').last()\<close>: the text after the last slash.\<close>

definition lastSection :: "QString \<Rightarrow> QString" where
  "lastSection s = rev (takeWhile (\<lambda>c. c \<noteq> CHR ''/'') (rev s))"

definition displayName :: "DeviceInfo \<Rightarrow> QString" where
  "displayName d =
     (if label d \<noteq> [] then label d
      else if model d \<noteq> [] then model d
      else lastSection (deviceNode d))"

text \<open>\<^verbatim>\<open>DeviceInfo::uniqueId()\<close>; the record field of the same name is \<open>uniqueId\<close> below.\<close>

definition DeviceInfo_uniqueId :: "DeviceInfo \<Rightarrow> QString" where
  "DeviceInfo_uniqueId d =
     (if serial d = [] then vendor d @ ''_'' @ model d
      else serial d @ ''_'' @ vendor d @ ''_'' @ model d)"

text \<open>
  \<^verbatim>\<open>DeviceRecord\<close>. The type \<open>'dt\<close> stands for \<^verbatim>\<open>QDateTime\<close>, whose values and whose
  conversions to and from ISO-8601 text belong to Qt and are left open. The field
  \<^verbatim>\<open>notes\<close> is written \<open>notes'\<close>, the plain word being reserved in Isabelle.
\<close>

record 'dt DeviceRecord =
  uniqueId :: QString
  hash :: QString
  hashAlgorithm :: QString
  firstSeen :: 'dt
  lastSeen :: 'dt
  lastHashed :: 'dt
  hashDurationMs :: uint64_t
  trustLevel :: int32_t
  autoMount :: bool
  notes' :: QString
  lastKnownInfo :: DeviceInfo

text \<open>
  \<^verbatim>\<open>HashResult\<close>; its fields \<^verbatim>\<open>deviceNode\<close>, \<^verbatim>\<open>hash\<close> and \<^verbatim>\<open>algorithm\<close> carry the
  prefix \<open>result\<close> here, the plain names being fields of the records above.
\<close>

record HashResult =
  resultDeviceNode :: QString
  resultHash :: QString
  resultAlgorithm :: QString
  bytesProcessed :: uint64_t
  durationMs :: uint64_t
  success :: bool
  errorMessage :: QString


datatype VerificationStatus =
  Unknown | Pending | Hashing | Verified | Modified | NewDevice | Error

datatype LogLevel = Debug | Info | Warning | ErrorLevel | Security

subsection \<open>QHash as an association list\<close>

type_synonym ('k, 'v) QHash = "('k \<times> 'v) list"

definition contains :: "('k, 'v) QHash \<Rightarrow> 'k \<Rightarrow> bool" where
  "contains h k = (map_of h k \<noteq> None)"

text \<open>\<^verbatim>\<open>insert(k, v)\<close> and \<^verbatim>\<open>h[k] = v\<close>: the value of an existing key is replaced.\<close>

fun insert_h :: "'k \<Rightarrow> 'v \<Rightarrow> ('k, 'v) QHash \<Rightarrow> ('k, 'v) QHash" where
  "insert_h k v [] = [(k, v)]"
| "insert_h k v ((k', v') # h) =
     (if k' = k then (k, v) # h else (k', v') # insert_h k v h)"

definition remove_h :: "'k \<Rightarrow> ('k, 'v) QHash \<Rightarrow> ('k, 'v) QHash" where
  "remove_h k h = filter (\<lambda>e. fst e \<noteq> k) h"

definition values_h :: "('k, 'v) QHash \<Rightarrow> 'v list" where
  "values_h h = map snd h"

definition keys_h :: "('k, 'v) QHash \<Rightarrow> 'k list" where
  "keys_h h = map fst h"

text \<open>Applying a change to the entry an iterator from \<^verbatim>\<open>find\<close> points at.\<close>

definition modify_h :: "'k \<Rightarrow> ('v \<Rightarrow> 'v) \<Rightarrow> ('k, 'v) QHash \<Rightarrow> ('k, 'v) QHash" where
  "modify_h k f h = map (\<lambda>e. if fst e = k then (fst e, f (snd e)) else e) h"

subsection \<open>DatabaseManager: state and signals\<close>

datatype db_signal =
    DeviceAdded QString
  | DeviceUpdated QString
  | DeviceRemoved QString
  | DatabaseSaved
  | DatabaseLoaded nat
  | DatabaseError QString
  | HashMismatch QString QString QString
  | QueuedSave

record 'dt DatabaseManager =
  m_databasePath :: QString
  m_devices :: "(QString, 'dt DeviceRecord) QHash"
  m_initialized :: bool
  m_modified :: bool
  m_autoSave :: bool
  m_lastSaved :: "'dt option"
  m_lastBackup :: "'dt option"

definition MAX_BACKUP_COUNT :: nat where
  "MAX_BACKUP_COUNT = 5"

definition DB_VERSION :: QString where
  "DB_VERSION = ''1.0''"

text \<open>
  \<^verbatim>\<open>markModified\<close> sets the dirty flag and, with auto-save on, queues a call of
  \<^verbatim>\<open>save()\<close> on the event loop: the signal \<open>QueuedSave\<close>.
\<close>

definition markModified :: "'dt DatabaseManager \<Rightarrow> 'dt DatabaseManager \<times> db_signal list" where
  "markModified db =
     (db\<lparr>m_modified := True\<rparr>, if m_autoSave db then [QueuedSave] else [])"

definition hasDevice :: "'dt DatabaseManager \<Rightarrow> QString \<Rightarrow> bool" where
  "hasDevice db k = contains (m_devices db) k"

definition getDevice :: "'dt DatabaseManager \<Rightarrow> QString \<Rightarrow> 'dt DeviceRecord option" where
  "getDevice db k = map_of (m_devices db) k"

definition addDevice ::
  "'dt DeviceRecord \<Rightarrow> 'dt DatabaseManager \<Rightarrow> bool \<times> 'dt DatabaseManager \<times> db_signal list" where
  "addDevice r db =
     (if contains (m_devices db) (uniqueId r) then (False, db, [])
      else (let (db', q) = markModified (db\<lparr>m_devices := insert_h (uniqueId r) r (m_devices db)\<rparr>)
            in (True, db', q @ [DeviceAdded (uniqueId r)])))"

definition updateDevice ::
  "'dt DeviceRecord \<Rightarrow> 'dt DatabaseManager \<Rightarrow> bool \<times> 'dt DatabaseManager \<times> db_signal list" where
  "updateDevice r db =
     (if \<not> contains (m_devices db) (uniqueId r) then (False, db, [])
      else (let (db', q) = markModified (db\<lparr>m_devices := insert_h (uniqueId r) r (m_devices db)\<rparr>)
            in (True, db', q @ [DeviceUpdated (uniqueId r)])))"

definition upsertDevice ::
  "'dt DeviceRecord \<Rightarrow> 'dt DatabaseManager \<Rightarrow> 'dt DatabaseManager \<times> db_signal list" where
  "upsertDevice r db =
     (let isNew = \<not> contains (m_devices db) (uniqueId r);
          (db', q) = markModified (db\<lparr>m_devices := insert_h (uniqueId r) r (m_devices db)\<rparr>)
      in (db', q @ [if isNew then DeviceAdded (uniqueId r) else DeviceUpdated (uniqueId r)]))"

definition removeDevice ::
  "QString \<Rightarrow> 'dt DatabaseManager \<Rightarrow> bool \<times> 'dt DatabaseManager \<times> db_signal list" where
  "removeDevice k db =
     (if \<not> contains (m_devices db) k then (False, db, [])
      else (let (db', q) = markModified (db\<lparr>m_devices := remove_h k (m_devices db)\<rparr>)
            in (True, db', q @ [DeviceRemoved k])))"

text \<open>\<^verbatim>\<open>updateHash\<close>; \<open>now\<close> is the reading of \<^verbatim>\<open>QDateTime::currentDateTime()\<close>.\<close>

definition updateHash ::
  "'dt \<Rightarrow> QString \<Rightarrow> QString \<Rightarrow> QString \<Rightarrow> uint64_t \<Rightarrow> 'dt DatabaseManager
     \<Rightarrow> bool \<times> 'dt DatabaseManager \<times> db_signal list" where
  "updateHash now k h algo ms db =
     (if \<not> contains (m_devices db) k then (False, db, [])
      else (let (db', q) = markModified (db\<lparr>m_devices :=
                  modify_h k (\<lambda>r. r\<lparr>hash := h, hashAlgorithm := algo,
                                     hashDurationMs := ms, lastHashed := now\<rparr>) (m_devices db)\<rparr>)
            in (True, db', q @ [DeviceUpdated k])))"

definition getHash :: "'dt DatabaseManager \<Rightarrow> QString \<Rightarrow> QString option" where
  "getHash db k =
     (case map_of (m_devices db) k of
        None \<Rightarrow> None
      | Some r \<Rightarrow> if hash r \<noteq> [] then Some (hash r) else None)"

text \<open>
  \<^verbatim>\<open>removeDevices\<close> (\<open>removeOne\<close> is the body of its loop, on the table and the list
  \<^verbatim>\<open>actuallyRemoved\<close>), \<^verbatim>\<open>clearAllDevices\<close>, the setters and \<^verbatim>\<open>compact\<close>.
\<close>

definition removeOne ::
  "(QString, 'dt DeviceRecord) QHash \<times> QString list \<Rightarrow> QString
     \<Rightarrow> (QString, 'dt DeviceRecord) QHash \<times> QString list" where
  "removeOne acc k =
     (if contains (fst acc) k then (remove_h k (fst acc), snd acc @ [k]) else acc)"

definition removeDevices ::
  "QString list \<Rightarrow> 'dt DatabaseManager \<Rightarrow> nat \<times> 'dt DatabaseManager \<times> db_signal list" where
  "removeDevices ks db =
     (let (h, actuallyRemoved) = foldl removeOne (m_devices db, []) ks;
          (db', q) = (if 0 < length actuallyRemoved
                      then markModified (db\<lparr>m_devices := h\<rparr>)
                      else (db\<lparr>m_devices := h\<rparr>, []))
      in (length actuallyRemoved, db', q @ map DeviceRemoved actuallyRemoved))"

definition clearAllDevices :: "'dt DatabaseManager \<Rightarrow> 'dt DatabaseManager \<times> db_signal list" where
  "clearAllDevices db =
     (let ids = keys_h (m_devices db);
          (db', q) = markModified (db\<lparr>m_devices := []\<rparr>)
      in (db', q @ map DeviceRemoved ids))"

definition setTrustLevel ::
  "QString \<Rightarrow> int32_t \<Rightarrow> 'dt DatabaseManager
     \<Rightarrow> bool \<times> 'dt DatabaseManager \<times> db_signal list" where
  "setTrustLevel k level db =
     (if \<not> contains (m_devices db) k then (False, db, [])
      else (let (db', q) = markModified (db\<lparr>m_devices :=
                  modify_h k (\<lambda>r. r\<lparr>trustLevel := level\<rparr>) (m_devices db)\<rparr>)
            in (True, db', q @ [DeviceUpdated k])))"

definition setAutoMount ::
  "QString \<Rightarrow> bool \<Rightarrow> 'dt DatabaseManager
     \<Rightarrow> bool \<times> 'dt DatabaseManager \<times> db_signal list" where
  "setAutoMount k flag db =
     (if \<not> contains (m_devices db) k then (False, db, [])
      else (let (db', q) = markModified (db\<lparr>m_devices :=
                  modify_h k (\<lambda>r. r\<lparr>autoMount := flag\<rparr>) (m_devices db)\<rparr>)
            in (True, db', q @ [DeviceUpdated k])))"

definition updateLastSeen ::
  "'dt \<Rightarrow> QString \<Rightarrow> 'dt DatabaseManager
     \<Rightarrow> bool \<times> 'dt DatabaseManager \<times> db_signal list" where
  "updateLastSeen now k db =
     (if \<not> contains (m_devices db) k then (False, db, [])
      else (let (db', q) = markModified (db\<lparr>m_devices :=
                  modify_h k (\<lambda>r. r\<lparr>lastSeen := now\<rparr>) (m_devices db)\<rparr>)
            in (True, db', q)))"

definition compact :: "'dt DatabaseManager \<Rightarrow> 'dt DatabaseManager \<times> db_signal list" where
  "compact db =
     (let toRemove = map fst (filter (\<lambda>e. uniqueId (snd e) = []) (m_devices db));
          db1 = db\<lparr>m_devices := foldl (\<lambda>h k. remove_h k h) (m_devices db) toRemove\<rparr>
      in if toRemove \<noteq> [] then markModified db1 else (db1, []))"

text \<open>
  \<^verbatim>\<open>verifyHash\<close> returns the result of the comparison and the signals it emits: the
  method is \<^verbatim>\<open>const\<close>, the state does not change.
\<close>

definition verifyHash :: "'dt DatabaseManager \<Rightarrow> QString \<Rightarrow> QString \<Rightarrow> bool \<times> db_signal list" where
  "verifyHash db k h =
     (case map_of (m_devices db) k of
        None \<Rightarrow> (False, [])
      | Some r \<Rightarrow>
          (let matches = (compare_ci (hash r) h = 0)
           in (matches, if \<not> matches \<and> hash r \<noteq> [] then [HashMismatch k (hash r) h] else [])))"

subsection \<open>QJsonValue\<close>

text \<open>
  The JSON values of Qt 6. A number is kept as the integer it denotes (the records hold
  no fractional number); \<open>JUndefined\<close> is what \<^verbatim>\<open>operator[]\<close> returns for a missing key.
\<close>

datatype QJsonValue =
    JUndefined
  | JNull
  | JBool bool
  | JNumber int
  | JString QString
  | JArray "QJsonValue list"
  | JObject "(QString \<times> QJsonValue) list"

type_synonym QJsonObject = "(QString, QJsonValue) QHash"

definition value_at :: "QJsonObject \<Rightarrow> QString \<Rightarrow> QJsonValue" where
  "value_at obj k = (case map_of obj k of Some v \<Rightarrow> v | None \<Rightarrow> JUndefined)"

definition toString_or :: "QString \<Rightarrow> QJsonValue \<Rightarrow> QString" where
  "toString_or d v = (case v of JString s \<Rightarrow> s | _ \<Rightarrow> d)"

text \<open>\<^verbatim>\<open>toInteger()\<close> and \<^verbatim>\<open>toInt()\<close>: the default 0 when the number does not fit.\<close>

definition toInteger :: "QJsonValue \<Rightarrow> int" where
  "toInteger v =
     (case v of JNumber i \<Rightarrow> if - (2 ^ 63) \<le> i \<and> i < 2 ^ 63 then i else 0 | _ \<Rightarrow> 0)"

definition toInt :: "QJsonValue \<Rightarrow> int" where
  "toInt v =
     (case v of JNumber i \<Rightarrow> if - (2 ^ 31) \<le> i \<and> i < 2 ^ 31 then i else 0 | _ \<Rightarrow> 0)"

definition toBool :: "QJsonValue \<Rightarrow> bool" where
  "toBool v = (case v of JBool b \<Rightarrow> b | _ \<Rightarrow> False)"

definition toObject :: "QJsonValue \<Rightarrow> QJsonObject" where
  "toObject v = (case v of JObject kvs \<Rightarrow> kvs | _ \<Rightarrow> [])"

definition toArray :: "QJsonValue \<Rightarrow> QJsonValue list" where
  "toArray v = (case v of JArray xs \<Rightarrow> xs | _ \<Rightarrow> [])"

text \<open>A run of assignments \<^verbatim>\<open>obj[k] = v\<close> on a fresh object, in the order written.\<close>

definition assign_all :: "(QString \<times> QJsonValue) list \<Rightarrow> QJsonObject" where
  "assign_all kvs = foldl (\<lambda>obj kv. insert_h (fst kv) (snd kv) obj) [] kvs"

subsection \<open>Types.h: JSON conversions\<close>

definition DeviceInfo_toJson :: "DeviceInfo \<Rightarrow> QJsonObject" where
  "DeviceInfo_toJson d = assign_all
     [(''device_node'', JString (deviceNode d)),
      (''serial'', JString (serial d)),
      (''vendor'', JString (vendor d)),
      (''model'', JString (model d)),
      (''label'', JString (label d)),
      (''fs_type'', JString (fsType d)),
      (''size_bytes'', JNumber (sint (sizeBytes d)))]"

definition DeviceInfo_fromJson :: "QJsonObject \<Rightarrow> DeviceInfo" where
  "DeviceInfo_fromJson obj = DeviceInfo_default
     \<lparr>deviceNode := toString_or [] (value_at obj ''device_node''),
      serial := toString_or [] (value_at obj ''serial''),
      vendor := toString_or [] (value_at obj ''vendor''),
      model := toString_or [] (value_at obj ''model''),
      label := toString_or [] (value_at obj ''label''),
      fsType := toString_or [] (value_at obj ''fs_type''),
      sizeBytes := word_of_int (toInteger (value_at obj ''size_bytes''))\<rparr>"

text \<open>
  What the program uses of \<^verbatim>\<open>QDateTime\<close>: \<^verbatim>\<open>toString(Qt::ISODate)\<close>,
  \<^verbatim>\<open>fromString(s, Qt::ISODate)\<close> and \<^verbatim>\<open>toString("yyyyMMdd_hhmmss")\<close>.
\<close>

record 'dt QDateTime_api =
  toISODate :: "'dt \<Rightarrow> QString"
  fromISODate :: "QString \<Rightarrow> 'dt"
  toStamp :: "'dt \<Rightarrow> QString"

definition DeviceRecord_toJson :: "'dt QDateTime_api \<Rightarrow> 'dt DeviceRecord \<Rightarrow> QJsonObject" where
  "DeviceRecord_toJson qt r = assign_all
     [(''unique_id'', JString (uniqueId r)),
      (''hash'', JString (hash r)),
      (''hash_algorithm'', JString (hashAlgorithm r)),
      (''first_seen'', JString (toISODate qt (firstSeen r))),
      (''last_seen'', JString (toISODate qt (lastSeen r))),
      (''last_hashed'', JString (toISODate qt (lastHashed r))),
      (''hash_duration_ms'', JNumber (sint (hashDurationMs r))),
      (''trust_level'', JNumber (sint (trustLevel r))),
      (''auto_mount'', JBool (autoMount r)),
      (''notes'', JString (notes' r)),
      (''device_info'', JObject (DeviceInfo_toJson (lastKnownInfo r)))]"

definition DeviceRecord_fromJson :: "'dt QDateTime_api \<Rightarrow> QJsonObject \<Rightarrow> 'dt DeviceRecord" where
  "DeviceRecord_fromJson qt obj =
     \<lparr>uniqueId = toString_or [] (value_at obj ''unique_id''),
      hash = toString_or [] (value_at obj ''hash''),
      hashAlgorithm = toString_or ''SHA256'' (value_at obj ''hash_algorithm''),
      firstSeen = fromISODate qt (toString_or [] (value_at obj ''first_seen'')),
      lastSeen = fromISODate qt (toString_or [] (value_at obj ''last_seen'')),
      lastHashed = fromISODate qt (toString_or [] (value_at obj ''last_hashed'')),
      hashDurationMs = word_of_int (toInteger (value_at obj ''hash_duration_ms'')),
      trustLevel = word_of_int (toInt (value_at obj ''trust_level'')),
      autoMount = toBool (value_at obj ''auto_mount''),
      notes' = toString_or [] (value_at obj ''notes''),
      lastKnownInfo = DeviceInfo_fromJson (toObject (value_at obj ''device_info''))\<rparr>"

subsection \<open>Files\<close>

text \<open>
  The bytes of a file: nothing, the text of a JSON document, or bytes that
  \<^verbatim>\<open>QJsonDocument::fromJson\<close> rejects (a truncated text among them). Writing a document
  with \<^verbatim>\<open>toJson\<close> and parsing the text gives the document back: the text is represented
  by the document it denotes.
\<close>

datatype QByteArray = EmptyData | JsonText QJsonValue | Unparsable

record QFileData =
  contents :: QByteArray
  lastModified :: nat
  ownerOnly :: bool

type_synonym filesystem = "(QString, QFileData) QHash"

text \<open>
  The outcomes of the system calls of one method call: opening the temporary file for
  writing, writing all the bytes, opening a file for reading, removing, renaming and
  copying a file, creating the directory.
\<close>

record io_outcomes =
  openWriteOk :: bool
  writeComplete :: bool
  openReadOk :: bool
  removeOk :: bool
  renameOk :: bool
  copyOk :: bool
  mkpathOk :: bool

text \<open>The clock at a method call: the date-time and the time stamp files get.\<close>

record 'dt clock =
  currentDateTime :: "'dt"
  fileTime :: nat

definition file_remove :: "io_outcomes \<Rightarrow> QString \<Rightarrow> filesystem \<Rightarrow> filesystem" where
  "file_remove io p fs = (if removeOk io then remove_h p fs else fs)"

text \<open>\<^verbatim>\<open>QFile::rename\<close> does not replace an existing file.\<close>

definition file_rename :: "io_outcomes \<Rightarrow> QString \<Rightarrow> QString \<Rightarrow> filesystem \<Rightarrow> bool \<times> filesystem" where
  "file_rename io src dst fs =
     (case map_of fs src of
        None \<Rightarrow> (False, fs)
      | Some f \<Rightarrow>
          if renameOk io \<and> \<not> contains fs dst
          then (True, insert_h dst f (remove_h src fs))
          else (False, fs))"

text \<open>\<^verbatim>\<open>QFile::copy\<close> does not replace an existing file either; the copy is a new file.\<close>

definition file_copy ::
  "io_outcomes \<Rightarrow> nat \<Rightarrow> QString \<Rightarrow> QString \<Rightarrow> filesystem \<Rightarrow> bool \<times> filesystem" where
  "file_copy io t src dst fs =
     (case map_of fs src of
        None \<Rightarrow> (False, fs)
      | Some f \<Rightarrow>
          if copyOk io \<and> \<not> contains fs dst
          then (True, insert_h dst (f\<lparr>lastModified := t\<rparr>) fs)
          else (False, fs))"

definition file_read :: "io_outcomes \<Rightarrow> QString \<Rightarrow> filesystem \<Rightarrow> QByteArray option" where
  "file_read io p fs =
     (if openReadOk io then map_option contents (map_of fs p) else None)"

text \<open>
  \<^verbatim>\<open>QFileInfo\<close> on an absolute path: the file name is the text after the last slash, the
  base name ends at its first dot, the suffix starts after its last dot.
\<close>

definition fileName :: "QString \<Rightarrow> QString" where
  "fileName p = lastSection p"

definition absolutePath :: "QString \<Rightarrow> QString" where
  "absolutePath p =
     (let d = take (length p - length (fileName p) - 1) p in if d = [] then ''/'' else d)"

definition baseName :: "QString \<Rightarrow> QString" where
  "baseName p = takeWhile (\<lambda>c. c \<noteq> CHR ''.'') (fileName p)"

definition suffix :: "QString \<Rightarrow> QString" where
  "suffix p =
     (if CHR ''.'' \<in> set (fileName p)
      then rev (takeWhile (\<lambda>c. c \<noteq> CHR ''.'') (rev (fileName p))) else [])"

subsection \<open>DatabaseManager: persistence\<close>

text \<open>\<^verbatim>\<open>QJsonDocument::fromJson\<close>: an error for no bytes and for unparsable bytes.\<close>

definition fromJson :: "QByteArray \<Rightarrow> QJsonValue option" where
  "fromJson data = (case data of JsonText doc \<Rightarrow> Some doc | _ \<Rightarrow> None)"

text \<open>
  \<^verbatim>\<open>loadFromFile\<close> adds the records of the file to the table it finds; its callers
  start it on an empty table. \<open>loadRecord\<close> is the body of its loop. The log lines it
  prints are no part of the model.
\<close>

definition loadRecord ::
  "'dt QDateTime_api \<Rightarrow> (QString, 'dt DeviceRecord) QHash \<Rightarrow> QJsonValue
     \<Rightarrow> (QString, 'dt DeviceRecord) QHash" where
  "loadRecord qt h item =
     (let r = DeviceRecord_fromJson qt (toObject item)
      in if uniqueId r \<noteq> [] then insert_h (uniqueId r) r h else h)"

definition loadFromFile ::
  "'dt QDateTime_api \<Rightarrow> io_outcomes \<Rightarrow> filesystem \<Rightarrow> 'dt DatabaseManager
     \<Rightarrow> bool \<times> 'dt DatabaseManager" where
  "loadFromFile qt io fs db =
     (case file_read io (m_databasePath db) fs of
        None \<Rightarrow> (False, db)
      | Some EmptyData \<Rightarrow> (True, db)
      | Some Unparsable \<Rightarrow> (False, db)
      | Some (JsonText doc) \<Rightarrow>
          (let root = toObject doc;
               devicesArray = toArray (value_at root ''devices'')
           in (True, db\<lparr>m_devices := foldl (loadRecord qt) (m_devices db) devicesArray\<rparr>)))"

text \<open>
  \<^verbatim>\<open>writeToFile\<close>: the whole table goes to \<^verbatim>\<open>path.tmp\<close>; an existing database file is
  removed; the temporary file is renamed to the database path; the permissions are set.
\<close>

definition writeToFile ::
  "'dt QDateTime_api \<Rightarrow> 'dt clock \<Rightarrow> io_outcomes \<Rightarrow> filesystem \<Rightarrow> 'dt DatabaseManager
     \<Rightarrow> bool \<times> filesystem \<times> db_signal list" where
  "writeToFile qt clk io fs db =
     (let root = assign_all
            [(''version'', JString DB_VERSION),
             (''last_modified'', JString (toISODate qt (currentDateTime clk))),
             (''device_count'', JNumber (sint (of_nat (length (m_devices db)) :: int32_t))),
             (''devices'', JArray (map (\<lambda>r. JObject (DeviceRecord_toJson qt r))
                                       (values_h (m_devices db))))];
          data = JsonText (JObject root);
          tempPath = m_databasePath db @ ''.tmp''
      in if \<not> openWriteOk io then (False, fs, [DatabaseError ''Failed to write database''])
         else
           (let fs1 = insert_h tempPath
                        \<lparr>contents = (if writeComplete io then data else Unparsable),
                         lastModified = fileTime clk,
                         ownerOnly = (case map_of fs tempPath of
                                        Some f \<Rightarrow> ownerOnly f | None \<Rightarrow> False)\<rparr> fs
            in if \<not> writeComplete io
               then (False, file_remove io tempPath fs1,
                     [DatabaseError ''Failed to write complete database''])
               else
                 (let fs2 = (if contains fs1 (m_databasePath db)
                             then file_remove io (m_databasePath db) fs1 else fs1);
                      (renamed, fs3) = file_rename io tempPath (m_databasePath db) fs2
                  in if \<not> renamed
                     then (False, fs3, [DatabaseError ''Failed to finalize database write''])
                     else (True,
                           modify_h (m_databasePath db) (\<lambda>f. f\<lparr>ownerOnly := True\<rparr>) fs3,
                           []))))"

definition save ::
  "'dt QDateTime_api \<Rightarrow> 'dt clock \<Rightarrow> io_outcomes \<Rightarrow> filesystem \<Rightarrow> 'dt DatabaseManager
     \<Rightarrow> bool \<times> filesystem \<times> 'dt DatabaseManager \<times> db_signal list" where
  "save qt clk io fs db =
     (if \<not> m_initialized db then (False, fs, db, [DatabaseError ''Database not initialized''])
      else (let (written, fs', q) = writeToFile qt clk io fs db
            in if written
               then (True, fs',
                     db\<lparr>m_modified := False, m_lastSaved := Some (currentDateTime clk)\<rparr>,
                     q @ [DatabaseSaved])
               else (False, fs', db, q)))"

definition reload ::
  "'dt QDateTime_api \<Rightarrow> io_outcomes \<Rightarrow> filesystem \<Rightarrow> 'dt DatabaseManager
     \<Rightarrow> bool \<times> 'dt DatabaseManager \<times> db_signal list" where
  "reload qt io fs db =
     (if \<not> m_initialized db then (False, db, [])
      else (let (loaded, db') = loadFromFile qt io fs (db\<lparr>m_devices := []\<rparr>)
            in if loaded
               then (True, db'\<lparr>m_modified := False\<rparr>, [DatabaseLoaded (length (m_devices db'))])
               else (False, db', [])))"


subsection \<open>DatabaseManager: backups\<close>

text \<open>
  The name filter of \<^verbatim>\<open>QDir::entryInfoList\<close> is a wildcard pattern, which Qt turns into an
  anchored regular expression (\<^verbatim>\<open>QRegularExpression::fromWildcard\<close>): \<^verbatim>\<open>*\<close> stands for any
  run of characters other than the slash, \<^verbatim>\<open>?\<close> for one such character, \<^verbatim>\<open>[...]\<close> for
  one character of a set given by single characters and ranges \<^verbatim>\<open>a-z\<close> (negated after
  \<^verbatim>\<open>[!\<close> or \<^verbatim>\<open>[^\<close>, with a \<^verbatim>\<open>]\<close> that comes first taken as a member), and every other
  character for itself. A pattern whose bracket is not closed, holds a slash or holds a
  range that runs backwards gives no valid expression and matches no name. Name filters
  ignore case unless \<^verbatim>\<open>QDir::CaseSensitive\<close> is given. Inside a bracket, single
  characters and ranges are modelled; the named classes of regular expressions
  (\<^verbatim>\<open>[:alpha:]\<close>) are not.
\<close>

definition otherCase :: "char \<Rightarrow> char" where
  "otherCase c =
     (case map_of (zip ''ABCDEFGHIJKLMNOPQRSTUVWXYZ'' ''abcdefghijklmnopqrstuvwxyz'') c of
        Some l \<Rightarrow> l
      | None \<Rightarrow>
          (case map_of (zip ''abcdefghijklmnopqrstuvwxyz'' ''ABCDEFGHIJKLMNOPQRSTUVWXYZ'') c of
             Some u \<Rightarrow> u
           | None \<Rightarrow> c))"

datatype glob_item = Star | AnyOne | Lit char | Class bool "(char \<times> char) list"

text \<open>
  Reading a pattern: outside a bracket (\<open>None\<close>), or inside one with its negation flag and
  the ranges read so far.
\<close>

fun globParse :: "(bool \<times> (char \<times> char) list) option \<Rightarrow> QString \<Rightarrow> glob_item list option" where
  "globParse None [] = Some []"
| "globParse (Some cls) [] = None"
| "globParse None (c # cs) =
     (if c = CHR ''*'' then map_option (Cons Star) (globParse None cs)
      else if c = CHR ''?'' then map_option (Cons AnyOne) (globParse None cs)
      else if c = CHR ''[''
      then (case cs of
              [] \<Rightarrow> None
            | d # ds \<Rightarrow>
                if d = CHR ''!'' \<or> d = CHR ''^''
                then (case ds of
                        [] \<Rightarrow> None
                      | e # es \<Rightarrow>
                          if e = CHR '']''
                          then globParse (Some (True, [(CHR '']'', CHR '']'')])) es
                          else globParse (Some (True, [])) ds)
                else if d = CHR '']''
                then globParse (Some (False, [(CHR '']'', CHR '']'')])) ds
                else globParse (Some (False, [])) cs)
      else map_option (Cons (Lit c)) (globParse None cs))"
| "globParse (Some (neg, rs)) (c # cs) =
     (if c = CHR '']'' then map_option (Cons (Class neg (rev rs))) (globParse None cs)
      else if c = CHR ''/'' then None
      else (case cs of
              d # e # rest \<Rightarrow>
                if d = CHR ''-'' \<and> e \<noteq> CHR '']''
                then (if e \<noteq> CHR ''/'' \<and> (of_char c :: nat) \<le> of_char e
                      then globParse (Some (neg, (c, e) # rs)) rest
                      else None)
                else globParse (Some (neg, (c, c) # rs)) cs
            | _ \<Rightarrow> globParse (Some (neg, (c, c) # rs)) cs))"

definition inRange :: "char \<times> char \<Rightarrow> char \<Rightarrow> bool" where
  "inRange r c = ((of_char (fst r) :: nat) \<le> of_char c \<and> (of_char c :: nat) \<le> of_char (snd r))"

definition inClass :: "(char \<times> char) list \<Rightarrow> char \<Rightarrow> bool" where
  "inClass rs c = list_ex (\<lambda>r. inRange r c \<or> inRange r (otherCase c)) rs"

fun globMatch :: "glob_item list \<Rightarrow> QString \<Rightarrow> bool" where
  "globMatch [] s = (s = [])"
| "globMatch (Star # items) [] = globMatch items []"
| "globMatch (Star # items) (c # cs) =
     (globMatch items (c # cs) \<or> (c \<noteq> CHR ''/'' \<and> globMatch (Star # items) cs))"
| "globMatch (AnyOne # items) [] = False"
| "globMatch (AnyOne # items) (c # cs) = (c \<noteq> CHR ''/'' \<and> globMatch items cs)"
| "globMatch (Lit p # items) [] = False"
| "globMatch (Lit p # items) (c # cs) = (toCaseFolded c = toCaseFolded p \<and> globMatch items cs)"
| "globMatch (Class neg rs # items) [] = False"
| "globMatch (Class neg rs # items) (c # cs) = (inClass rs c \<noteq> neg \<and> globMatch items cs)"

definition matchesFilter :: "QString \<Rightarrow> QString \<Rightarrow> bool" where
  "matchesFilter pattern name =
     (case globParse None pattern of None \<Rightarrow> False | Some items \<Rightarrow> globMatch items name)"

text \<open>A text that holds none of the characters that open a wildcard.\<close>

definition wildcardFree :: "QString \<Rightarrow> bool" where
  "wildcardFree s = list_all (\<lambda>c. c \<noteq> CHR ''*'' \<and> c \<noteq> CHR ''?'' \<and> c \<noteq> CHR ''['') s"

text \<open>
  \<^verbatim>\<open>QDir::entryInfoList\<close> with one name filter, \<^verbatim>\<open>QDir::Files\<close> and \<^verbatim>\<open>QDir::Time\<close>: the files
  of the directory whose names match the filter, hidden files (a name that starts with a
  dot) left out as \<^verbatim>\<open>QDir::Hidden\<close> is not given, the most recently modified first, files
  of the same time by name.
\<close>

definition isHidden :: "QString \<Rightarrow> bool" where
  "isHidden name = (take 1 name = ''.'')"

definition newerFirst :: "QString \<times> QFileData \<Rightarrow> QString \<times> QFileData \<Rightarrow> bool" where
  "newerFirst a b =
     (lastModified (snd b) < lastModified (snd a)
      \<or> (lastModified (snd a) = lastModified (snd b)
         \<and> compare_cs (fileName (fst a)) (fileName (fst b)) < 0))"

fun insertByTime ::
  "QString \<times> QFileData \<Rightarrow> (QString \<times> QFileData) list \<Rightarrow> (QString \<times> QFileData) list" where
  "insertByTime x [] = [x]"
| "insertByTime x (y # ys) = (if newerFirst x y then x # y # ys else y # insertByTime x ys)"

definition sortByTime :: "(QString \<times> QFileData) list \<Rightarrow> (QString \<times> QFileData) list" where
  "sortByTime xs = foldr insertByTime xs []"

definition entryInfoList :: "QString \<Rightarrow> QString \<Rightarrow> filesystem \<Rightarrow> (QString \<times> QFileData) list" where
  "entryInfoList dir pattern fs =
     sortByTime
       (filter (\<lambda>e. absolutePath (fst e) = dir \<and> \<not> isHidden (fileName (fst e))
                      \<and> matchesFilter pattern (fileName (fst e))) fs)"

text \<open>
  The loop \<^verbatim>\<open>while (backups.size() > MAX_BACKUP_COUNT) QFile::remove(backups.takeLast())\<close>
  on the list read from its end.
\<close>

fun removeWhileOver ::
  "io_outcomes \<Rightarrow> nat \<Rightarrow> (QString \<times> QFileData) list \<Rightarrow> filesystem \<Rightarrow> filesystem" where
  "removeWhileOver io m [] fs = fs"
| "removeWhileOver io m (b # bs) fs =
     (if m < length (b # bs) then removeWhileOver io m bs (file_remove io (fst b) fs) else fs)"

text \<open>
  The start of the name of a backup, \<^verbatim>\<open>fi.baseName() + "_backup_"\<close>, and the name filter
  of the clean-up, \<^verbatim>\<open>QFileInfo(m_databasePath).baseName() + "_backup_*"\<close>.
\<close>

definition backupPrefix :: "'dt DatabaseManager \<Rightarrow> QString" where
  "backupPrefix db = baseName (m_databasePath db) @ ''_backup_''"

definition backupFilter :: "'dt DatabaseManager \<Rightarrow> QString" where
  "backupFilter db = baseName (m_databasePath db) @ ''_backup_*''"

definition createBackup ::
  "'dt QDateTime_api \<Rightarrow> 'dt clock \<Rightarrow> io_outcomes \<Rightarrow> QString \<Rightarrow> filesystem \<Rightarrow> 'dt DatabaseManager
     \<Rightarrow> QString \<times> filesystem \<times> 'dt DatabaseManager" where
  "createBackup qt clk io backupPath fs db =
     (if \<not> m_initialized db then ([], fs, db)
      else
        (let destPath =
               (if backupPath = []
                then absolutePath (m_databasePath db) @ ''/'' @ backupPrefix db
                       @ toStamp qt (currentDateTime clk) @ ''.'' @ suffix (m_databasePath db)
                else backupPath)
         in if contains fs (m_databasePath db)
            then (let (copied, fs1) = file_copy io (fileTime clk) (m_databasePath db) destPath fs
                  in if copied
                     then (let backups = entryInfoList (absolutePath destPath) (backupFilter db) fs1
                           in (destPath,
                               removeWhileOver io MAX_BACKUP_COUNT (rev backups) fs1,
                               db\<lparr>m_lastBackup := Some (currentDateTime clk)\<rparr>))
                     else ([], fs, db))
            else ([], fs, db)))"

text \<open>
  \<^verbatim>\<open>restoreFromBackup\<close> and \<^verbatim>\<open>importFromFile\<close>, with the bodies of their loops
  (\<open>restoreRecord\<close>, and \<open>importRecord\<close> on the table and the counter \<^verbatim>\<open>imported\<close>). The
  text Qt appends to the message of a parse error is left out of the signal.
\<close>

definition restoreRecord ::
  "'dt QDateTime_api \<Rightarrow> (QString, 'dt DeviceRecord) QHash \<Rightarrow> QJsonValue
     \<Rightarrow> (QString, 'dt DeviceRecord) QHash" where
  "restoreRecord qt h item =
     (let r = DeviceRecord_fromJson qt (toObject item) in insert_h (uniqueId r) r h)"

definition importRecord ::
  "'dt QDateTime_api \<Rightarrow> bool \<Rightarrow> (QString, 'dt DeviceRecord) QHash \<times> int \<Rightarrow> QJsonValue
     \<Rightarrow> (QString, 'dt DeviceRecord) QHash \<times> int" where
  "importRecord qt merge acc item =
     (let r = DeviceRecord_fromJson qt (toObject item)
      in if \<not> contains (fst acc) (uniqueId r)
         then (insert_h (uniqueId r) r (fst acc), snd acc + 1)
         else if \<not> merge
         then (insert_h (uniqueId r) r (fst acc), snd acc + 1)
         else acc)"

definition restoreFromBackup ::
  "'dt QDateTime_api \<Rightarrow> 'dt clock \<Rightarrow> io_outcomes \<Rightarrow> QString \<Rightarrow> filesystem \<Rightarrow> 'dt DatabaseManager
     \<Rightarrow> bool \<times> filesystem \<times> 'dt DatabaseManager \<times> db_signal list" where
  "restoreFromBackup qt clk io backupPath fs db =
     (if \<not> contains fs backupPath
      then (False, fs, db, [DatabaseError (''Backup file not found: '' @ backupPath)])
      else
        (let (made, fs1, db1) = createBackup qt clk io [] fs db
         in case file_read io backupPath fs1 of
              None \<Rightarrow> (False, fs1, db1, [DatabaseError ''Failed to open backup file''])
            | Some data \<Rightarrow>
                (case fromJson data of
                   None \<Rightarrow> (False, fs1, db1, [DatabaseError ''Invalid backup file: ''])
                 | Some doc \<Rightarrow>
                     (let devicesArray = toArray (value_at (toObject doc) ''devices'');
                          db2 = db1\<lparr>m_devices := foldl (restoreRecord qt) [] devicesArray,
                                    m_modified := True\<rparr>;
                          (written, fs2, q) = writeToFile qt clk io fs1 db2
                      in if \<not> written
                         then (False, fs2, db2,
                               q @ [DatabaseError ''Failed to save restored database''])
                         else (True, fs2, db2\<lparr>m_modified := False\<rparr>,
                               q @ [DatabaseLoaded (length (m_devices db2))])))))"

definition importFromFile ::
  "'dt QDateTime_api \<Rightarrow> io_outcomes \<Rightarrow> QString \<Rightarrow> bool \<Rightarrow> filesystem \<Rightarrow> 'dt DatabaseManager
     \<Rightarrow> int \<times> 'dt DatabaseManager \<times> db_signal list" where
  "importFromFile qt io path merge fs db =
     (case file_read io path fs of
        None \<Rightarrow> (-1, db, [DatabaseError (''Failed to open import file: '' @ path)])
      | Some data \<Rightarrow>
          (case fromJson data of
             None \<Rightarrow> (-1, db, [DatabaseError ''Invalid import file: ''])
           | Some doc \<Rightarrow>
               (let devicesArray = toArray (value_at (toObject doc) ''devices'');
                    (h, imported) =
                      foldl (importRecord qt merge)
                            (if \<not> merge then [] else m_devices db, 0) devicesArray
                in if 0 < imported
                   then (let (db', q) = markModified (db\<lparr>m_devices := h\<rparr>) in (imported, db', q))
                   else (imported, db\<lparr>m_devices := h\<rparr>, []))))"

subsection \<open>HashWorker: jobs, signals and the thread pool\<close>

datatype Algorithm = SHA256 | SHA512 | BLAKE2b | XXH3_128

text \<open>
  \<^verbatim>\<open>HashJob\<close> (its device node is \<open>jobDeviceNode\<close>; the pointer \<^verbatim>\<open>userData\<close>, which no code
  reads, is left out) and \<^verbatim>\<open>JobState\<close> (the future and its watcher are the thread pool and
  the call of \<open>onJobFinished\<close> below; the byte counter is \<open>jobBytesProcessed\<close>).
\<close>

record HashJob =
  jobDeviceNode :: QString
  algorithm :: Algorithm
  bufferSizeKB :: int
  useMemoryMapping :: bool
  rawDevice :: bool

record JobState =
  jobId :: QString
  config :: HashJob
  cancelled :: bool
  jobBytesProcessed :: uint64_t
  totalBytes :: uint64_t

datatype hash_signal =
    HashStarted QString QString
  | HashCompleted QString HashResult
  | HashFailed QString QString
  | HashCancelled QString

text \<open>
  \<^verbatim>\<open>QThreadPool::globalInstance()\<close>, on which \<^verbatim>\<open>QtConcurrent::run\<close> starts a job: the job
  runs at once while fewer than \<open>maxThreadCount\<close> jobs run, and waits in the queue
  otherwise. \<open>maxThreadCount\<close> is a property of the pool (by default the number of
  processor cores), not of the HashWorker.
\<close>

record QThreadPool =
  maxThreadCount :: nat
  running :: "QString list"
  waiting :: "QString list"

definition pool_start :: "QString \<Rightarrow> QThreadPool \<Rightarrow> QThreadPool" where
  "pool_start j pool =
     (if length (running pool) < maxThreadCount pool
      then pool\<lparr>running := running pool @ [j]\<rparr>
      else pool\<lparr>waiting := waiting pool @ [j]\<rparr>)"

record HashWorker =
  m_jobs :: "(QString, JobState) QHash"
  m_jobCounter :: uint64_t
  m_progressTimerActive :: bool
  m_maxConcurrent :: int

text \<open>The HashWorker as its constructor and the initialisers of its header leave it.\<close>

definition HashWorker_new :: HashWorker where
  "HashWorker_new =
     \<lparr>m_jobs = [], m_jobCounter = 0, m_progressTimerActive = False, m_maxConcurrent = 2\<rparr>"


definition algorithmFromName :: "QString \<Rightarrow> Algorithm" where
  "algorithmFromName name =
     (if compare_ci name ''SHA256'' = 0 then SHA256
      else if compare_ci name ''SHA512'' = 0 then SHA512
      else if compare_ci name ''BLAKE2b'' = 0 then BLAKE2b
      else if compare_ci name ''XXH3-128'' = 0 then XXH3_128
      else SHA256)"

text \<open>Decimal digits, as \<^verbatim>\<open>QString::arg\<close> prints a number.\<close>

fun showNat :: "nat \<Rightarrow> QString" where
  "showNat n =
     (if n < 10 then [''0123456789'' ! n] else showNat (n div 10) @ [''0123456789'' ! (n mod 10)])"

declare showNat.simps [simp del]

text \<open>\<^verbatim>\<open>generateJobId\<close>; \<open>nowMs\<close> is \<^verbatim>\<open>QDateTime::currentMSecsSinceEpoch()\<close>.\<close>

definition generateJobId :: "nat \<Rightarrow> HashWorker \<Rightarrow> QString \<times> HashWorker" where
  "generateJobId nowMs hw =
     (''hash_'' @ showNat nowMs @ ''_'' @ showNat (unat (m_jobCounter hw)),
      hw\<lparr>m_jobCounter := m_jobCounter hw + 1\<rparr>)"

text \<open>
  \<^verbatim>\<open>startHash\<close>; \<open>devSize\<close> is what \<^verbatim>\<open>getDeviceSize\<close> returns for the device of the job.
  The job goes to the thread pool whatever \<open>m_maxConcurrent\<close> holds.
\<close>

definition startHash ::
  "nat \<Rightarrow> uint64_t \<Rightarrow> HashJob \<Rightarrow> QThreadPool \<Rightarrow> HashWorker
     \<Rightarrow> QString \<times> HashWorker \<times> QThreadPool \<times> hash_signal list" where
  "startHash nowMs devSize job pool hw =
     (let (jid, hw1) = generateJobId nowMs hw;
          state = \<lparr>jobId = jid, config = job, cancelled = False,
                   jobBytesProcessed = 0, totalBytes = devSize\<rparr>;
          pool' = pool_start jid pool;
          hw2 = hw1\<lparr>m_jobs := insert_h jid state (m_jobs hw1), m_progressTimerActive := True\<rparr>
      in (jid, hw2, pool', [HashStarted jid (jobDeviceNode job)]))"

definition cancelHash :: "QString \<Rightarrow> HashWorker \<Rightarrow> bool \<times> HashWorker" where
  "cancelHash jid hw =
     (if \<not> contains (m_jobs hw) jid then (False, hw)
      else (True, hw\<lparr>m_jobs := modify_h jid (\<lambda>st. st\<lparr>cancelled := True\<rparr>) (m_jobs hw)\<rparr>))"

definition cancelAll :: "HashWorker \<Rightarrow> HashWorker" where
  "cancelAll hw = hw\<lparr>m_jobs := map (\<lambda>e. (fst e, (snd e)\<lparr>cancelled := True\<rparr>)) (m_jobs hw)\<rparr>"

definition setMaxConcurrent :: "int \<Rightarrow> HashWorker \<Rightarrow> HashWorker" where
  "setMaxConcurrent n hw = hw\<lparr>m_maxConcurrent := max 1 n\<rparr>"

definition activeJobCount :: "HashWorker \<Rightarrow> nat" where
  "activeJobCount hw = length (m_jobs hw)"

text \<open>
  \<^verbatim>\<open>onJobFinished\<close>, called when the future of the job has finished; \<open>outcome\<close> is what
  \<^verbatim>\<open>future.result()\<close> gives: the result, or (\<open>Inl\<close>) the text of the exception it throws.
\<close>

definition onJobFinished ::
  "QString \<Rightarrow> QString + HashResult \<Rightarrow> HashWorker \<Rightarrow> HashWorker \<times> hash_signal list" where
  "onJobFinished jid outcome hw =
     (case map_of (m_jobs hw) jid of
        None \<Rightarrow> (hw, [])
      | Some state \<Rightarrow>
          (let jobs' = remove_h jid (m_jobs hw);
               hw' = hw\<lparr>m_jobs := jobs',
                        m_progressTimerActive :=
                          (if jobs' = [] then False else m_progressTimerActive hw)\<rparr>
           in if cancelled state then (hw', [HashCancelled jid])
              else (case outcome of
                      Inl what \<Rightarrow> (hw', [HashFailed jid (''Exception: '' @ what)])
                    | Inr result \<Rightarrow>
                        if success result then (hw', [HashCompleted jid result])
                        else (hw', [HashFailed jid (errorMessage result)]))))"

subsection \<open>HashWorker: hashing a device\<close>

type_synonym byte = "8 word"

datatype EVP_MD = EVP_sha256 | EVP_sha512 | EVP_blake2b512

text \<open>
  What the operating system and OpenSSL answer during one job: whether the device opens
  (with and without \<^verbatim>\<open>O_DIRECT\<close>), the size \<^verbatim>\<open>getDeviceSize\<close> finds, whether the digest
  context is created and initialised, whether the buffer is allocated, the results of the
  successive calls of \<^verbatim>\<open>read\<close> (bytes, or \<open>Inl\<close> for an error; end of file after the
  last), the bytes of the device and whether the i-th \<^verbatim>\<open>mmap\<close> succeeds, the value of the
  cancellation flag at the i-th test, the text of \<^verbatim>\<open>strerror(errno)\<close>, the elapsed time
  and the digest function of each algorithm.
\<close>

record hash_env =
  openDirectOk :: bool
  openOk :: bool
  probedSize :: uint64_t
  ctxNewOk :: bool
  digestInitOk :: bool
  memalignOk :: bool
  reads :: "(unit + byte list) list"
  deviceBytes :: "byte list"
  mmapOk :: "nat \<Rightarrow> bool"
  cancelledAt :: "nat \<Rightarrow> bool"
  errnoText :: QString
  elapsedMs :: uint64_t
  digest :: "EVP_MD \<Rightarrow> byte list \<Rightarrow> byte list"















subsection \<open>MainWindow: the orchestration of hashing, mounting and ejecting\<close>

text \<open>
  The settings the handlers read. \<^verbatim>\<open>AppSettings::hashAlgorithm\<close> and
  \<^verbatim>\<open>AppSettings::useMemoryMapping\<close> carry the suffix \<open>Setting\<close>, the plain names being
  fields of \<open>DeviceRecord\<close> and \<open>HashJob\<close>.
\<close>

record AppSettings =
  autoHashOnConnect :: bool
  autoHashOnEject :: bool
  requireConfirmationForNew :: bool
  requireConfirmationForModified :: bool
  blockModifiedDevices :: bool
  defaultTrustLevel :: int32_t
  hashAlgorithmSetting :: QString
  hashBufferSizeKB :: int
  useMemoryMappingSetting :: bool
  maxConcurrentHashes :: int

text \<open>The part of a \<^verbatim>\<open>DeviceCard\<close> that is state and not drawing.\<close>

record DeviceCard =
  m_device :: DeviceInfo
  m_status :: VerificationStatus
  progressVisible :: bool

definition setVerificationStatus :: "VerificationStatus \<Rightarrow> DeviceCard \<Rightarrow> DeviceCard" where
  "setVerificationStatus st c = c\<lparr>m_status := st\<rparr>"

definition setProgressVisible :: "bool \<Rightarrow> DeviceCard \<Rightarrow> DeviceCard" where
  "setProgressVisible v c =
     (let c1 = c\<lparr>progressVisible := v\<rparr>
      in if v then setVerificationStatus Hashing c1 else c1)"

datatype buttons = OkOnly | YesNo

text \<open>
  What a handler asks of its collaborators, in the order of the calls: the mount
  manager, the hash worker, the log panel, the tray icon, a message box (with the four
  texts put into its message), and the signals the database emits meanwhile.
\<close>

datatype action =
    Mount QString
  | Unmount QString
  | PowerOff QString
  | StartHash HashJob
  | Log LogLevel QString
  | NotifyVerificationResult QString VerificationStatus
  | NotifyHashCompleted QString uint64_t
  | SetHashingActive bool
  | MessageBox QString QString QString QString buttons
  | Emitted db_signal

text \<open>
  \<open>monitorDevices\<close> is the table \<^verbatim>\<open>m_deviceMonitor->getDevice\<close> reads: the devices
  connected at present.
\<close>

record 'dt MainWindow =
  m_settings :: AppSettings
  m_database :: "'dt DatabaseManager"
  monitorDevices :: "(QString, DeviceInfo) QHash"
  m_deviceCards :: "(QString, DeviceCard) QHash"
  m_hashJobDevices :: "(QString, QString) QHash"
  m_activeHashCount :: int

text \<open>\<^verbatim>\<open>onHashMismatch\<close>, the slot connected to the signal \<^verbatim>\<open>hashMismatch\<close>.\<close>

definition onHashMismatch :: "QString \<Rightarrow> QString \<Rightarrow> QString \<Rightarrow> action list" where
  "onHashMismatch k expected actual =
     [Log Security (''Hash mismatch detected for device '' @ k)]"

text \<open>The signals of the database, each followed by what the slot connected to it does.\<close>

fun deliver :: "db_signal list \<Rightarrow> action list" where
  "deliver [] = []"
| "deliver (HashMismatch k e a # q) = Emitted (HashMismatch k e a) # onHashMismatch k e a @ deliver q"
| "deliver (x # q) = Emitted x # deliver q"

definition startHashing :: "QString \<Rightarrow> 'dt MainWindow \<Rightarrow> action list" where
  "startHashing node mw =
     [StartHash \<lparr>jobDeviceNode = node,
                 algorithm = algorithmFromName (hashAlgorithmSetting (m_settings mw)),
                 bufferSizeKB = hashBufferSizeKB (m_settings mw),
                 useMemoryMapping = useMemoryMappingSetting (m_settings mw),
                 rawDevice = True\<rparr>]"

text \<open>
  \<^verbatim>\<open>showModifiedDeviceAlert\<close>; \<open>answerYes\<close> is the button the user presses in the
  Yes/No box, \<open>now\<close> the clock read by \<open>updateHash\<close>.
\<close>

definition showModifiedDeviceAlert ::
  "'dt \<Rightarrow> bool \<Rightarrow> DeviceInfo \<Rightarrow> QString \<Rightarrow> QString \<Rightarrow> 'dt MainWindow
     \<Rightarrow> 'dt MainWindow \<times> action list" where
  "showModifiedDeviceAlert now answerYes device expected actual mw =
     (let box = MessageBox (displayName device) (deviceNode device)
                  (take 32 expected @ ''...'') (take 32 actual @ ''...'')
      in if blockModifiedDevices (m_settings mw) then (mw, [box OkOnly])
         else if answerYes
         then (let (updated, db', q) =
                     updateHash now (DeviceInfo_uniqueId device) actual
                       (hashAlgorithmSetting (m_settings mw)) 0 (m_database mw)
               in (mw\<lparr>m_database := db'\<rparr>,
                   [box YesNo] @ deliver q @
                   [Mount (deviceNode device),
                    Log Warning (''User accepted modified device: '' @ displayName device)]))
         else (mw, [box YesNo]))"

text \<open>\<^verbatim>\<open>onHashCompleted\<close>, the slot connected to \<^verbatim>\<open>HashWorker::hashCompleted\<close>.\<close>

definition onHashCompleted ::
  "'dt \<Rightarrow> bool \<Rightarrow> QString \<Rightarrow> HashResult \<Rightarrow> 'dt MainWindow \<Rightarrow> 'dt MainWindow \<times> action list" where
  "onHashCompleted now answerYes jid result mw =
     (let node = (case map_of (m_hashJobDevices mw) jid of Some d \<Rightarrow> d | None \<Rightarrow> []);
          mw1 = mw\<lparr>m_hashJobDevices := remove_h jid (m_hashJobDevices mw),
                   m_activeHashCount := max 0 (m_activeHashCount mw - 1)\<rparr>;
          idle = (if m_activeHashCount mw1 = 0 then [SetHashingActive False] else [])
      in if node = [] then (mw1, [])
         else
           (case map_of (monitorDevices mw1) node of
              None \<Rightarrow> (mw1, [Log Info (''Hash completed but device disconnected: '' @ node)])
            | Some deviceInfo \<Rightarrow>
                (let deviceId = DeviceInfo_uniqueId deviceInfo;
                     known = (case getDevice (m_database mw1) deviceId of
                                None \<Rightarrow> None
                              | Some r \<Rightarrow> if hash r \<noteq> [] then Some r else None)
                 in case known of
                    Some r \<Rightarrow>
                      (let (matches, q) = verifyHash (m_database mw1) deviceId (resultHash result)
                       in if matches
                          then
                            (mw1\<lparr>m_deviceCards := modify_h node
                                    (\<lambda>c. setProgressVisible False (setVerificationStatus Verified c))
                                    (m_deviceCards mw1)\<rparr>,
                             deliver q @
                             [Log Info (''Verified: '' @ displayName deviceInfo @ '' - hash matches''),
                              NotifyVerificationResult (displayName deviceInfo) Verified] @
                             (if \<not> isMounted deviceInfo then [Mount node] else []) @ idle)
                          else
                            (let mw2 = mw1\<lparr>m_deviceCards := modify_h node
                                          (\<lambda>c. setProgressVisible False
                                                  (setVerificationStatus Modified c))
                                          (m_deviceCards mw1)\<rparr>;
                                 (mw3, alert) =
                                   showModifiedDeviceAlert now answerYes deviceInfo
                                     (hash r) (resultHash result) mw2
                             in (mw3,
                                 deliver q @
                                 [Log Security (''ALERT: '' @ displayName deviceInfo
                                                 @ '' - hash MISMATCH!'')] @
                                 alert @
                                 [NotifyVerificationResult (displayName deviceInfo) Modified] @
                                 idle)))
                  | None \<Rightarrow>
                      (let (updated, db', q) =
                             updateHash now deviceId (resultHash result) (resultAlgorithm result)
                               (durationMs result) (m_database mw1)
                       in (mw1\<lparr>m_database := db',
                               m_deviceCards := modify_h node
                                 (\<lambda>c. setProgressVisible False (setVerificationStatus Verified c))
                                 (m_deviceCards mw1)\<rparr>,
                           deliver q @
                           [Log Info (''Hash stored for '' @ displayName deviceInfo),
                            NotifyHashCompleted (displayName deviceInfo) (durationMs result)] @
                           (if \<not> isMounted deviceInfo then [Mount node] else []) @ idle)))))"

text \<open>
  \<^verbatim>\<open>onUnmountRequested\<close> and \<^verbatim>\<open>onEjectRequested\<close>, the slots of the unmount and eject
  buttons of a device card (and of the eject entry of the tray menu).
\<close>

definition onUnmountRequested :: "QString \<Rightarrow> 'dt MainWindow \<Rightarrow> action list" where
  "onUnmountRequested node mw =
     (case map_of (monitorDevices mw) node of
        None \<Rightarrow> []
      | Some device \<Rightarrow>
          if autoHashOnEject (m_settings mw)
          then Log Info (''Re-hashing before unmount: '' @ node) # startHashing node mw
          else [Unmount node])"

definition onEjectRequested :: "QString \<Rightarrow> 'dt MainWindow \<Rightarrow> action list" where
  "onEjectRequested node mw =
     (case map_of (monitorDevices mw) node of
        None \<Rightarrow> []
      | Some device \<Rightarrow>
          Log Info (''Eject requested: '' @ displayName device) #
          (if isMounted device then [Unmount node] else []) @ [PowerOff node])"

text \<open>The status shown for a device node: the status of its card.\<close>

definition statusOf :: "'dt MainWindow \<Rightarrow> QString \<Rightarrow> VerificationStatus option" where
  "statusOf mw node = map_option m_status (map_of (m_deviceCards mw) node)"

definition isMountRequest :: "action \<Rightarrow> bool" where
  "isMountRequest a = (case a of Mount n \<Rightarrow> True | _ \<Rightarrow> False)"

definition isHashRequest :: "action \<Rightarrow> bool" where
  "isHashRequest a = (case a of StartHash j \<Rightarrow> True | _ \<Rightarrow> False)"

definition isEjectRequest :: "action \<Rightarrow> bool" where
  "isEjectRequest a = (case a of Unmount n \<Rightarrow> True | PowerOff n \<Rightarrow> True | _ \<Rightarrow> False)"

subsection \<open>Sequences of calls\<close>

text \<open>
  \<open>save()\<close> followed by \<open>reload()\<close>: whether each succeeded, and the store afterwards.
\<close>

definition saveThenReload ::
  "'dt QDateTime_api \<Rightarrow> 'dt clock \<Rightarrow> io_outcomes \<Rightarrow> io_outcomes \<Rightarrow> filesystem
     \<Rightarrow> 'dt DatabaseManager \<Rightarrow> bool \<times> bool \<times> 'dt DatabaseManager" where
  "saveThenReload qt clk io io' fs db =
     (let (saved, fs', db', q) = save qt clk io fs db;
          (loaded, db'', q') = reload qt io' fs' db'
      in (saved, loaded, db''))"

text \<open>
  The backup files of the database as \<open>createBackup\<close> lists them, and a run of calls of
  \<open>createBackup()\<close> with the default path, one per clock reading, with the paths they
  return.
\<close>

definition backupFiles :: "'dt DatabaseManager \<Rightarrow> filesystem \<Rightarrow> (QString \<times> QFileData) list" where
  "backupFiles db fs = entryInfoList (absolutePath (m_databasePath db)) (backupFilter db) fs"

fun createBackups ::
  "'dt QDateTime_api \<Rightarrow> io_outcomes \<Rightarrow> 'dt clock list \<Rightarrow> filesystem \<Rightarrow> 'dt DatabaseManager
     \<Rightarrow> QString list \<times> filesystem \<times> 'dt DatabaseManager" where
  "createBackups qt io [] fs db = ([], fs, db)"
| "createBackups qt io (clk # clks) fs db =
     (let (path, fs1, db1) = createBackup qt clk io [] fs db;
          (paths, fs2, db2) = createBackups qt io clks fs1 db1
      in (path # paths, fs2, db2))"

subsection \<open>Example values\<close>

text \<open>
  A stick, its record, a store and a window holding them, with time counted in
  milliseconds and printed in whole seconds.
\<close>

definition exampleInfo :: DeviceInfo where
  "exampleInfo =
     \<lparr>deviceNode = ''/dev/sdb1'', parentDevice = ''/dev/sdb'', serial = ''S1'',
      vendor = ''Acme'', model = ''Stick'', label = [], fsType = ''vfat'',
      mountPoint = ''/run/media/stick'', sizeBytes = 4096, isRemovable = True,
      isMounted = True\<rparr>"

definition exampleRecord :: "nat DeviceRecord" where
  "exampleRecord =
     \<lparr>uniqueId = ''S1_Acme_Stick'', hash = ''ab12'', hashAlgorithm = ''SHA256'',
      firstSeen = 1000, lastSeen = 2000, lastHashed = 2000, hashDurationMs = 7,
      trustLevel = 1, autoMount = False, notes' = [], lastKnownInfo = exampleInfo\<rparr>"

definition exampleDb :: "nat DatabaseManager" where
  "exampleDb =
     \<lparr>m_databasePath = ''/cfg/devices.json'',
      m_devices = [(''S1_Acme_Stick'', exampleRecord)],
      m_initialized = True, m_modified = False, m_autoSave = False,
      m_lastSaved = None, m_lastBackup = None\<rparr>"

definition exampleSettings :: AppSettings where
  "exampleSettings =
     \<lparr>autoHashOnConnect = True, autoHashOnEject = True, requireConfirmationForNew = True,
      requireConfirmationForModified = True, blockModifiedDevices = True,
      defaultTrustLevel = 0, hashAlgorithmSetting = ''SHA256'', hashBufferSizeKB = 1024,
      useMemoryMappingSetting = True, maxConcurrentHashes = 1\<rparr>"

definition exampleWindow :: "nat MainWindow" where
  "exampleWindow =
     \<lparr>m_settings = exampleSettings, m_database = exampleDb,
      monitorDevices = [(''/dev/sdb1'', exampleInfo)],
      m_deviceCards = [(''/dev/sdb1'',
                        \<lparr>m_device = exampleInfo, m_status = Hashing, progressVisible = True\<rparr>)],
      m_hashJobDevices = [(''hash_5_0'', ''/dev/sdb1'')],
      m_activeHashCount = 1\<rparr>"

definition exampleResult :: HashResult where
  "exampleResult =
     \<lparr>resultDeviceNode = ''/dev/sdb1'', resultHash = ''cd34'', resultAlgorithm = ''SHA256'',
      bytesProcessed = 4096, durationMs = 9, success = True, errorMessage = []\<rparr>"

definition exampleJob :: "Algorithm \<Rightarrow> bool \<Rightarrow> HashJob" where
  "exampleJob a mm =
     \<lparr>jobDeviceNode = ''/dev/sdb1'', algorithm = a, bufferSizeKB = 1024,
      useMemoryMapping = mm, rawDevice = True\<rparr>"

definition exampleState :: "Algorithm \<Rightarrow> bool \<Rightarrow> bool \<Rightarrow> JobState" where
  "exampleState a mm c =
     \<lparr>jobId = ''hash_5_0'', config = exampleJob a mm, cancelled = c,
      jobBytesProcessed = 0, totalBytes = 4\<rparr>"

text \<open>A device of four bytes that opens or not; the digest is a stand-in.\<close>

definition exampleEnv :: "bool \<Rightarrow> hash_env" where
  "exampleEnv opens =
     \<lparr>openDirectOk = False, openOk = opens, probedSize = 4, ctxNewOk = True,
      digestInitOk = True, memalignOk = True, reads = [Inr [1, 2], Inr [3, 4]],
      deviceBytes = [1, 2, 3, 4], mmapOk = (\<lambda>i. True), cancelledAt = (\<lambda>i. False),
      errnoText = ''No such file or directory'', elapsedMs = 9,
      digest = (\<lambda>md bs. take 2 bs)\<rparr>"

definition examplePool :: QThreadPool where
  "examplePool = \<lparr>maxThreadCount = 4, running = [], waiting = []\<rparr>"

text \<open>
  A stand-in for the date functions of Qt (whole seconds in decimal digits), a clock,
  system calls that all succeed, and a directory that holds a database file.
\<close>

definition parseNat :: "QString \<Rightarrow> nat" where
  "parseNat s = foldl (\<lambda>a c. 10 * a + (of_char c - 48)) 0 s"

definition exampleQt :: "nat QDateTime_api" where
  "exampleQt =
     \<lparr>toISODate = (\<lambda>t. showNat (t div 1000)),
      fromISODate = (\<lambda>s. 1000 * parseNat s),
      toStamp = (\<lambda>t. showNat (t div 1000))\<rparr>"

definition exampleClock :: "nat \<Rightarrow> nat clock" where
  "exampleClock t = \<lparr>currentDateTime = t, fileTime = t\<rparr>"

definition exampleSixClocks :: "nat clock list" where
  "exampleSixClocks = map exampleClock [1000, 2000, 3000, 4000, 5000, 6000]"

definition exampleIo :: io_outcomes where
  "exampleIo =
     \<lparr>openWriteOk = True, writeComplete = True, openReadOk = True, removeOk = True,
      renameOk = True, copyOk = True, mkpathOk = True\<rparr>"

definition exampleFs :: filesystem where
  "exampleFs =
     [(''/cfg/devices.json'',
       \<lparr>contents = JsonText (JObject [(''version'', JString ''1.0''), (''devices'', JArray [])]),
        lastModified = 500, ownerOnly = True\<rparr>)]"

text \<open>The same directory after a backup at the third second.\<close>

definition exampleFsWithBackup :: filesystem where
  "exampleFsWithBackup =
     exampleFs @
     [(''/cfg/devices_backup_3.json'',
       \<lparr>contents = JsonText (JObject [(''version'', JString ''1.0''), (''devices'', JArray [])]),
        lastModified = 3000, ownerOnly = True\<rparr>)]"

text \<open>A store whose database file has a bracket in its name.\<close>

definition exampleBracketDb :: "nat DatabaseManager" where
  "exampleBracketDb = exampleDb\<lparr>m_databasePath := ''/cfg/dev[1].json''\<rparr>"

definition exampleBracketFs :: filesystem where
  "exampleBracketFs =
     [(''/cfg/dev[1].json'',
       \<lparr>contents = JsonText (JObject [(''version'', JString ''1.0''), (''devices'', JArray [])]),
        lastModified = 500, ownerOnly = True\<rparr>)]"

subsection \<open>The invariant of the device table\<close>

text \<open>Every key of the table is the \<open>uniqueId\<close> of the record stored under it.\<close>

definition keysMatch :: "(QString, 'dt DeviceRecord) QHash \<Rightarrow> bool" where
  "keysMatch h = list_all (\<lambda>e. uniqueId (snd e) = fst e) h"

subsection \<open>What a record keeps across the JSON file\<close>

text \<open>
  The snapshot as the file keeps it: the seven serialized fields; the four others as
  \<open>DeviceInfo_default\<close> has them. The record as the file keeps it: the time stamps
  printed as ISO-8601 text and parsed again, the snapshot as above, the rest unchanged.
\<close>

definition persistedInfo :: "DeviceInfo \<Rightarrow> DeviceInfo" where
  "persistedInfo d =
     d\<lparr>parentDevice := [], mountPoint := [], isRemovable := True, isMounted := False\<rparr>"

definition reparsed :: "'dt QDateTime_api \<Rightarrow> 'dt DeviceRecord \<Rightarrow> 'dt DeviceRecord" where
  "reparsed qt r =
     r\<lparr>firstSeen := fromISODate qt (toISODate qt (firstSeen r)),
       lastSeen := fromISODate qt (toISODate qt (lastSeen r)),
       lastHashed := fromISODate qt (toISODate qt (lastHashed r)),
       lastKnownInfo := persistedInfo (lastKnownInfo r)\<rparr>"

section \<open>Properties\<close>

subsection \<open>Helper facts\<close>

lemmas example_defs =
  exampleInfo_def exampleRecord_def exampleDb_def exampleSettings_def exampleWindow_def
  exampleResult_def exampleJob_def exampleState_def exampleEnv_def examplePool_def
  exampleQt_def exampleClock_def exampleIo_def exampleFs_def

lemma compare_ci_zero_iff:
  "compare_ci a b = 0 \<longleftrightarrow> map toCaseFolded a = map toCaseFolded b"
proof (induction a b rule: compare_ci.induct)
  case (4 x xs y ys)
  have "of_char (toCaseFolded x) = (of_char (toCaseFolded y) :: nat)
          \<longleftrightarrow> toCaseFolded x = toCaseFolded y"
    by (rule of_char_eq_iff)
  then show ?case using 4 by (simp add: Let_def del: of_char_eq_iff) linarith
qed simp_all

lemma map_of_modify_h:
  "map_of (modify_h k f h) k' = (if k' = k then map_option f (map_of h k) else map_of h k')"
  by (induction h) (auto simp: modify_h_def)

lemma map_of_remove_h:
  "map_of (remove_h k h) k' = (if k' = k then None else map_of h k')"
  by (induction h) (auto simp: remove_h_def)

lemma map_of_insert_h:
  "map_of (insert_h k v h) k' = (if k' = k then Some v else map_of h k')"
  by (induction h) auto

subsection \<open>The whitelist store: comparing hashes\<close>

text \<open>
  C7. For a device id present in the store, \<open>verifyHash\<close> returns true exactly when the
  stored hash and the candidate are equal after case folding; and whenever it returns
  false while the stored hash is not empty, it emits the signal \<open>HashMismatch\<close> with the
  id, the stored (expected) hash and the candidate (actual) hash.
\<close>

theorem verifyHash_case_insensitive_and_mismatch:
  "getDevice db k = Some r \<Longrightarrow>
     fst (verifyHash db k h) = (map toCaseFolded (hash r) = map toCaseFolded h)
     \<and> (\<not> fst (verifyHash db k h) \<and> hash r \<noteq> []
          \<longrightarrow> snd (verifyHash db k h) = [HashMismatch k (hash r) h])"
  by (simp add: verifyHash_def getDevice_def compare_ci_zero_iff Let_def)

text \<open>
  The stored hash \<open>ab12\<close> matches the candidate \<open>AB12\<close>; the candidate \<open>cd34\<close> does not
  match and is reported with the stored one.
\<close>

theorem verifyHash_case_insensitive_and_mismatch_witness:
  "getDevice exampleDb ''S1_Acme_Stick'' = Some exampleRecord
   \<and> fst (verifyHash exampleDb ''S1_Acme_Stick'' ''AB12'')
   \<and> \<not> fst (verifyHash exampleDb ''S1_Acme_Stick'' ''cd34'')
   \<and> hash exampleRecord \<noteq> []
   \<and> snd (verifyHash exampleDb ''S1_Acme_Stick'' ''cd34'')
       = [HashMismatch ''S1_Acme_Stick'' ''ab12'' ''cd34'']"
proof -
  have g: "getDevice exampleDb ''S1_Acme_Stick'' = Some exampleRecord"
    by (simp add: getDevice_def exampleDb_def)
  have h: "hash exampleRecord = ''ab12''"
    by (simp add: exampleRecord_def)
  show ?thesis
    using g h
      verifyHash_case_insensitive_and_mismatch [OF g, of "''AB12''"]
      verifyHash_case_insensitive_and_mismatch [OF g, of "''cd34''"]
    by (simp add: toCaseFolded_def)
qed

subsection \<open>The hash worker\<close>













lemma startHash_ignores_maximum:
  "fst (snd (snd (startHash t sz job pool (setMaxConcurrent n hw))))
     = fst (snd (snd (startHash t sz job pool hw)))"
  by (simp add: startHash_def setMaxConcurrent_def generateJobId_def Let_def)

text \<open>
  C4 does not hold of the code. With the maximum set to 1 and a thread pool of four
  threads, two calls of \<open>startHash\<close> leave two jobs running at once and none waiting:
  \<open>startHash\<close> hands every job to the pool and never reads \<open>m_maxConcurrent\<close>.
\<close>

theorem two_jobs_run_at_once_with_maximum_one:
  "(let hw0 = setMaxConcurrent 1 HashWorker_new;
        (j1, hw1, pool1, s1) = startHash 5 4096 (exampleJob SHA256 True) examplePool hw0;
        (j2, hw2, pool2, s2) = startHash 6 4096 (exampleJob SHA256 True) pool1 hw1
    in m_maxConcurrent hw2 = 1
       \<and> running pool2 = [''hash_5_0'', ''hash_6_1'']
       \<and> waiting pool2 = []
       \<and> activeJobCount hw2 = 2)"
  by (simp add: setMaxConcurrent_def HashWorker_new_def startHash_def generateJobId_def
      examplePool_def pool_start_def showNat.simps activeJobCount_def Let_def)

text \<open>
  C6. A job whose cancellation flag is set when its completion is processed is reported
  by the signal \<open>HashCancelled\<close> alone, not by \<open>HashFailed\<close> or \<open>HashCompleted\<close>, whatever
  its future holds, and it is no longer in the table of active jobs afterwards; the flag
  is set for a job that \<open>cancelHash\<close> was called on.
\<close>

theorem cancelled_job_reports_cancelled_and_leaves_active_set:
  "(map_of (m_jobs hw) jid = Some state \<and> cancelled state
      \<longrightarrow> snd (onJobFinished jid outcome hw) = [HashCancelled jid]
          \<and> \<not> contains (m_jobs (fst (onJobFinished jid outcome hw))) jid)
   \<and> (contains (m_jobs hw) jid
      \<longrightarrow> snd (onJobFinished jid outcome (snd (cancelHash jid hw))) = [HashCancelled jid]
          \<and> \<not> contains (m_jobs (fst (onJobFinished jid outcome (snd (cancelHash jid hw))))) jid)"
  by (auto simp add: onJobFinished_def cancelHash_def Let_def contains_def
      map_of_remove_h map_of_modify_h)

theorem cancelled_job_reports_cancelled_and_leaves_active_set_witness:
  "(let hw = \<lparr>m_jobs = [(''hash_5_0'', exampleState SHA256 True True)], m_jobCounter = 1,
              m_progressTimerActive = True, m_maxConcurrent = 2\<rparr>
    in map_of (m_jobs hw) ''hash_5_0'' = Some (exampleState SHA256 True True)
       \<and> cancelled (exampleState SHA256 True True)
       \<and> contains (m_jobs hw) ''hash_5_0''
       \<and> snd (onJobFinished ''hash_5_0'' (Inr exampleResult) hw) = [HashCancelled ''hash_5_0'']
       \<and> m_jobs (fst (onJobFinished ''hash_5_0'' (Inr exampleResult) hw)) = []
       \<and> snd (onJobFinished ''hash_5_0'' (Inr exampleResult) (snd (cancelHash ''hash_5_0'' hw)))
           = [HashCancelled ''hash_5_0''])"
  using cancelled_job_reports_cancelled_and_leaves_active_set
    [of "\<lparr>m_jobs = [(''hash_5_0'', exampleState SHA256 True True)], m_jobCounter = 1,
          m_progressTimerActive = True, m_maxConcurrent = 2\<rparr>"
        "''hash_5_0''" "exampleState SHA256 True True" "Inr exampleResult"]
  by (simp add: exampleState_def contains_def onJobFinished_def remove_h_def)

subsection \<open>The orchestration\<close>

text \<open>
  C2. Let a hash job complete for a connected device that has a card, whose record holds
  a non-empty hash H1, with a fresh hash H2 that differs from H1 after case folding. Then
  the status of the device becomes \<open>Modified\<close>, the signal \<open>HashMismatch\<close> is emitted with
  (id, H1, H2), the mismatch is logged at the level \<open>Security\<close>, the alert box is shown
  for H1 and H2 (32 characters of each), and if \<open>blockModifiedDevices\<close> is set no mount
  is requested.
\<close>

theorem hash_mismatch_marks_modified_and_blocks_mount:
  assumes job: "map_of (m_hashJobDevices mw) jid = Some node" "node \<noteq> []"
      and dev: "map_of (monitorDevices mw) node = Some device"
      and known: "getDevice (m_database mw) (DeviceInfo_uniqueId device) = Some r" "hash r \<noteq> []"
      and differs: "map toCaseFolded (hash r) \<noteq> map toCaseFolded (resultHash result)"
      and shown: "contains (m_deviceCards mw) node"
  shows "statusOf (fst (onHashCompleted now answerYes jid result mw)) node = Some Modified
       \<and> Emitted (HashMismatch (DeviceInfo_uniqueId device) (hash r) (resultHash result))
            \<in> set (snd (onHashCompleted now answerYes jid result mw))
       \<and> Log Security (''ALERT: '' @ displayName device @ '' - hash MISMATCH!'')
            \<in> set (snd (onHashCompleted now answerYes jid result mw))
       \<and> MessageBox (displayName device) (deviceNode device)
            (take 32 (hash r) @ ''...'') (take 32 (resultHash result) @ ''...'')
            (if blockModifiedDevices (m_settings mw) then OkOnly else YesNo)
            \<in> set (snd (onHashCompleted now answerYes jid result mw))
       \<and> (blockModifiedDevices (m_settings mw)
            \<longrightarrow> list_all (\<lambda>a. \<not> isMountRequest a)
                  (snd (onHashCompleted now answerYes jid result mw)))"
proof -
  have v: "verifyHash (m_database mw) (DeviceInfo_uniqueId device) (resultHash result)
             = (False, [HashMismatch (DeviceInfo_uniqueId device) (hash r) (resultHash result)])"
    using known differs by (simp add: verifyHash_def getDevice_def compare_ci_zero_iff Let_def)
  obtain c where c: "map_of (m_deviceCards mw) node = Some c"
    using shown by (auto simp: contains_def)
  show ?thesis
    using job dev known c v
    by (auto simp: onHashCompleted_def Let_def showModifiedDeviceAlert_def statusOf_def
        map_of_modify_h setProgressVisible_def setVerificationStatus_def isMountRequest_def
        onHashMismatch_def getDevice_def split: prod.splits)
qed

theorem hash_mismatch_marks_modified_and_blocks_mount_witness:
  "map_of (m_hashJobDevices exampleWindow) ''hash_5_0'' = Some ''/dev/sdb1''
   \<and> map_of (monitorDevices exampleWindow) ''/dev/sdb1'' = Some exampleInfo
   \<and> getDevice (m_database exampleWindow) (DeviceInfo_uniqueId exampleInfo) = Some exampleRecord
   \<and> hash exampleRecord = ''ab12'' \<and> resultHash exampleResult = ''cd34''
   \<and> contains (m_deviceCards exampleWindow) ''/dev/sdb1''
   \<and> blockModifiedDevices (m_settings exampleWindow)
   \<and> statusOf (fst (onHashCompleted 3000 True ''hash_5_0'' exampleResult exampleWindow))
        ''/dev/sdb1'' = Some Modified
   \<and> Emitted (HashMismatch ''S1_Acme_Stick'' ''ab12'' ''cd34'')
        \<in> set (snd (onHashCompleted 3000 True ''hash_5_0'' exampleResult exampleWindow))
   \<and> list_all (\<lambda>a. \<not> isMountRequest a)
        (snd (onHashCompleted 3000 True ''hash_5_0'' exampleResult exampleWindow))"
proof -
  have j: "map_of (m_hashJobDevices exampleWindow) ''hash_5_0'' = Some ''/dev/sdb1''"
    by (simp add: exampleWindow_def)
  have n: "''/dev/sdb1'' \<noteq> []" by simp
  have d: "map_of (monitorDevices exampleWindow) ''/dev/sdb1'' = Some exampleInfo"
    by (simp add: exampleWindow_def)
  have u: "DeviceInfo_uniqueId exampleInfo = ''S1_Acme_Stick''"
    by (simp add: DeviceInfo_uniqueId_def exampleInfo_def)
  have k: "getDevice (m_database exampleWindow) (DeviceInfo_uniqueId exampleInfo)
             = Some exampleRecord"
    by (simp add: u getDevice_def exampleWindow_def exampleDb_def)
  have h: "hash exampleRecord = ''ab12''" "resultHash exampleResult = ''cd34''"
    by (simp_all add: exampleRecord_def exampleResult_def)
  have e: "hash exampleRecord \<noteq> []" by (simp add: h)
  have f: "map toCaseFolded (hash exampleRecord) \<noteq> map toCaseFolded (resultHash exampleResult)"
    by (simp add: h toCaseFolded_def)
  have s: "contains (m_deviceCards exampleWindow) ''/dev/sdb1''"
    by (simp add: contains_def exampleWindow_def)
  have b: "blockModifiedDevices (m_settings exampleWindow)"
    by (simp add: exampleWindow_def exampleSettings_def)
  show ?thesis
    using j d k h s b u
      hash_mismatch_marks_modified_and_blocks_mount [OF j n d k e f s, of 3000 True]
    by simp
qed

lemma isEjectRequest_simps:
  "isEjectRequest (Mount n) = False" "isEjectRequest (Unmount n) = True"
  "isEjectRequest (PowerOff n) = True" "isEjectRequest (StartHash j) = False"
  "isEjectRequest (Log l m) = False" "isEjectRequest (NotifyVerificationResult n v) = False"
  "isEjectRequest (NotifyHashCompleted n t) = False" "isEjectRequest (SetHashingActive b) = False"
  "isEjectRequest (MessageBox a1 a2 a3 a4 bs) = False" "isEjectRequest (Emitted e) = False"
  by (simp_all add: isEjectRequest_def)

lemma deliver_no_eject: "list_all (\<lambda>a. \<not> isEjectRequest a) (deliver q)"
  by (induction q rule: deliver.induct) (simp_all add: isEjectRequest_simps onHashMismatch_def)

lemma showModifiedDeviceAlert_no_eject:
  "list_all (\<lambda>a. \<not> isEjectRequest a)
     (snd (showModifiedDeviceAlert now answerYes device expected actual mw))"
  by (simp add: showModifiedDeviceAlert_def Let_def split_beta isEjectRequest_simps
      deliver_no_eject)

lemma onHashCompleted_no_eject:
  "list_all (\<lambda>a. \<not> isEjectRequest a) (snd (onHashCompleted now answerYes jid result mw))"
  by (simp add: onHashCompleted_def Let_def split_beta isEjectRequest_simps deliver_no_eject
      showModifiedDeviceAlert_no_eject split: option.splits)

text \<open>
  With re-hash on eject enabled, \<open>onUnmountRequested\<close> starts the hash and asks for no
  unmount; and no run of \<open>onHashCompleted\<close> asks for an unmount or a power-off.
\<close>

lemma onUnmountRequested_with_rehash:
  "autoHashOnEject (m_settings mw) \<Longrightarrow>
     list_all (\<lambda>a. \<not> isEjectRequest a) (onUnmountRequested node mw)"
  by (simp add: onUnmountRequested_def startHashing_def isEjectRequest_simps split: option.splits)

lemma onEjectRequested_starts_no_hash:
  "filter isHashRequest (onEjectRequested node mw) = []"
  by (simp add: onEjectRequested_def isHashRequest_def split: option.splits)

text \<open>
  C5 does not hold of the code. With re-hash on eject enabled, an eject request for the
  mounted, known stick asks the mount manager to unmount and to power off at once and
  starts no hash job (\<open>onEjectRequested\<close> starts none for any device:
  \<open>onEjectRequested_starts_no_hash\<close>).
\<close>

theorem eject_proceeds_without_rehash:
  "autoHashOnEject (m_settings exampleWindow)
   \<and> hasDevice (m_database exampleWindow) (DeviceInfo_uniqueId exampleInfo)
   \<and> onEjectRequested ''/dev/sdb1'' exampleWindow
       = [Log Info ''Eject requested: Stick'', Unmount ''/dev/sdb1'', PowerOff ''/dev/sdb1'']
   \<and> filter isHashRequest (onEjectRequested ''/dev/sdb1'' exampleWindow) = []"
  by (simp add: onEjectRequested_def exampleWindow_def exampleSettings_def exampleInfo_def
      displayName_def hasDevice_def contains_def exampleDb_def DeviceInfo_uniqueId_def
      isHashRequest_def)

subsection \<open>The whitelist store: writing the file\<close>

lemma writeToFile_early_failure_keeps_file:
  "\<not> (openWriteOk io \<and> writeComplete io) \<Longrightarrow>
     \<not> fst (writeToFile qt clk io fs db)
     \<and> map_of (fst (snd (writeToFile qt clk io fs db))) (m_databasePath db)
         = map_of fs (m_databasePath db)"
  by (auto simp: writeToFile_def Let_def file_remove_def map_of_remove_h map_of_insert_h)

text \<open>
  C1 does not hold of the code. When the temporary file has been written and the rename
  fails, the database file that existed before is gone: \<open>writeToFile\<close> removes it before
  it renames the temporary file, so the replacement is not one atomic rename. (A failure
  to open or to write the temporary file does leave the file as it was:
  \<open>writeToFile_early_failure_keeps_file\<close>.)
\<close>

theorem rename_failure_loses_previous_file:
  "(let io = exampleIo\<lparr>renameOk := False\<rparr>;
        (written, fs', q) = writeToFile exampleQt (exampleClock 3000) io exampleFs exampleDb
    in contains exampleFs ''/cfg/devices.json''
       \<and> \<not> written
       \<and> \<not> contains fs' ''/cfg/devices.json''
       \<and> q = [DatabaseError ''Failed to finalize database write''])"
  by (simp add: writeToFile_def example_defs Let_def contains_def file_remove_def
      file_rename_def remove_h_def assign_all_def)

subsection \<open>The whitelist store: the invariant of the table\<close>

lemma keysMatch_insert_h: "keysMatch h \<Longrightarrow> keysMatch (insert_h (uniqueId r) r h)"
  by (induction h) (auto simp: keysMatch_def)

lemma keysMatch_remove_h: "keysMatch h \<Longrightarrow> keysMatch (remove_h k h)"
  by (simp add: keysMatch_def remove_h_def list_all_iff)

lemma keysMatch_modify_h:
  "keysMatch h \<Longrightarrow> (\<And>r. uniqueId (f r) = uniqueId r) \<Longrightarrow> keysMatch (modify_h k f h)"
  by (auto simp add: keysMatch_def modify_h_def list_all_iff)

lemma contains_insert_h: "contains (insert_h k v h) k' = (k' = k \<or> contains h k')"
  by (simp add: contains_def map_of_insert_h)

lemma load_fold_keysMatch:
  "keysMatch h \<Longrightarrow> keysMatch (foldl (loadRecord qt) h items)"
  by (induction items arbitrary: h) (auto simp: Let_def loadRecord_def keysMatch_insert_h)

lemma load_fold_no_empty:
  "\<not> contains h [] \<Longrightarrow> \<not> contains (foldl (loadRecord qt) h items) []"
  by (induction items arbitrary: h) (auto simp: Let_def loadRecord_def contains_insert_h)

lemma restore_fold_keysMatch:
  "keysMatch h \<Longrightarrow> keysMatch (foldl (restoreRecord qt) h items)"
  by (induction items arbitrary: h) (auto simp: Let_def restoreRecord_def keysMatch_insert_h)

lemma import_fold_keysMatch:
  "keysMatch (fst acc) \<Longrightarrow> keysMatch (fst (foldl (importRecord qt merge) acc items))"
  by (induction items arbitrary: acc) (auto simp: Let_def importRecord_def keysMatch_insert_h)

lemma loadFromFile_keysMatch:
  "keysMatch (m_devices db) \<Longrightarrow> keysMatch (m_devices (snd (loadFromFile qt io fs db)))"
  by (auto simp: loadFromFile_def Let_def load_fold_keysMatch split: option.splits QByteArray.splits)

lemma loadFromFile_no_empty:
  "\<not> contains (m_devices db) []
     \<Longrightarrow> \<not> contains (m_devices (snd (loadFromFile qt io fs db))) []"
  by (auto simp: loadFromFile_def Let_def load_fold_no_empty split: option.splits QByteArray.splits)

lemma createBackup_devices:
  "m_devices (snd (snd (createBackup qt clk io bp fs db))) = m_devices db"
  by (auto simp: createBackup_def Let_def split: prod.splits)

lemma keysMatch_Nil: "keysMatch []" by (simp add: keysMatch_def)

lemma restore_keysMatch:
  "keysMatch (m_devices db)
     \<Longrightarrow> keysMatch (m_devices (fst (snd (snd (restoreFromBackup qt clk io bp fs db)))))"
  using createBackup_devices[of qt clk io "[]" fs db] restore_fold_keysMatch[OF keysMatch_Nil, of qt]
  by (auto simp: restoreFromBackup_def Let_def split: prod.splits option.splits)

lemma import_keysMatch:
  assumes k: "keysMatch (m_devices db)"
  shows "keysMatch (m_devices (fst (snd (importFromFile qt io path merge fs db))))"
proof (cases "file_read io path fs")
  case None
  then show ?thesis using k by (simp add: importFromFile_def)
next
  case data: (Some data)
  show ?thesis
  proof (cases "fromJson data")
    case None
    then show ?thesis using k data by (simp add: importFromFile_def)
  next
    case (Some doc)
    have "keysMatch (fst (foldl (importRecord qt merge) (if \<not> merge then [] else m_devices db, 0)
                            (toArray (value_at (toObject doc) ''devices''))))"
      by (rule import_fold_keysMatch) (simp add: k keysMatch_Nil)
    then show ?thesis
      using data Some
      by (cases merge) (auto simp: importFromFile_def Let_def markModified_def split: prod.splits)
  qed
qed

lemma crud_keysMatch:
  "keysMatch (m_devices db) \<Longrightarrow>
     keysMatch (m_devices (fst (snd (addDevice r db))))
   \<and> keysMatch (m_devices (fst (snd (updateDevice r db))))
   \<and> keysMatch (m_devices (fst (upsertDevice r db)))
   \<and> keysMatch (m_devices (fst (snd (updateHash now k h a ms db))))
   \<and> keysMatch (m_devices (fst (snd (removeDevice k db))))"
  by (auto simp: addDevice_def updateDevice_def upsertDevice_def updateHash_def
      removeDevice_def markModified_def Let_def keysMatch_insert_h keysMatch_remove_h
      keysMatch_modify_h)

lemma removeOne_fold_keysMatch:
  "keysMatch (fst acc) \<Longrightarrow> keysMatch (fst (foldl removeOne acc ks))"
  by (induction ks arbitrary: acc) (auto simp: removeOne_def keysMatch_remove_h)

lemma remove_fold_keysMatch:
  "keysMatch h \<Longrightarrow> keysMatch (foldl (\<lambda>h k. remove_h k h) h ks)"
  by (induction ks arbitrary: h) (auto simp: keysMatch_remove_h)

lemma removeDevices_keysMatch:
  assumes "keysMatch (m_devices db)"
  shows "keysMatch (m_devices (fst (snd (removeDevices ks db))))"
proof -
  have "keysMatch (fst (foldl removeOne (m_devices db, []) ks))"
    by (rule removeOne_fold_keysMatch) (simp add: assms)
  then show ?thesis
    by (auto simp: removeDevices_def markModified_def Let_def split: prod.splits)
qed

lemma setters_keysMatch:
  "keysMatch (m_devices db) \<Longrightarrow>
     keysMatch (m_devices (fst (clearAllDevices db)))
   \<and> keysMatch (m_devices (fst (snd (setTrustLevel k level db))))
   \<and> keysMatch (m_devices (fst (snd (setAutoMount k flag db))))
   \<and> keysMatch (m_devices (fst (snd (updateLastSeen now k db))))
   \<and> keysMatch (m_devices (fst (compact db)))"
  by (auto simp: clearAllDevices_def setTrustLevel_def setAutoMount_def updateLastSeen_def
      compact_def markModified_def Let_def keysMatch_Nil keysMatch_modify_h
      remove_fold_keysMatch)

text \<open>
  C10. In the table of the store every key is the \<open>uniqueId\<close> of the record it maps to.
  \<open>loadFromFile\<close> establishes this on the empty table its callers start it on, and the
  table it builds has no empty key; it keeps both properties of a table that has them.
  \<open>addDevice\<close>, \<open>updateDevice\<close>, \<open>upsertDevice\<close>, \<open>updateHash\<close>, \<open>removeDevice\<close>,
  \<open>importFromFile\<close> and \<open>restoreFromBackup\<close> preserve the invariant, whether they succeed
  or fail, and so do the other methods that change the table: \<open>removeDevices\<close>,
  \<open>clearAllDevices\<close>, \<open>setTrustLevel\<close>, \<open>setAutoMount\<close>, \<open>updateLastSeen\<close>, \<open>compact\<close>.
\<close>

theorem table_keys_are_unique_ids:
  "keysMatch (m_devices (snd (loadFromFile qt io fs (db\<lparr>m_devices := []\<rparr>))))
   \<and> \<not> contains (m_devices (snd (loadFromFile qt io fs (db\<lparr>m_devices := []\<rparr>)))) []
   \<and> (keysMatch (m_devices db) \<longrightarrow>
         keysMatch (m_devices (snd (loadFromFile qt io fs db)))
       \<and> (\<not> contains (m_devices db) []
            \<longrightarrow> \<not> contains (m_devices (snd (loadFromFile qt io fs db))) [])
       \<and> keysMatch (m_devices (fst (snd (addDevice r db))))
       \<and> keysMatch (m_devices (fst (snd (updateDevice r db))))
       \<and> keysMatch (m_devices (fst (upsertDevice r db)))
       \<and> keysMatch (m_devices (fst (snd (updateHash now k h a ms db))))
       \<and> keysMatch (m_devices (fst (snd (removeDevice k db))))
       \<and> keysMatch (m_devices (fst (snd (importFromFile qt io path merge fs db))))
       \<and> keysMatch (m_devices (fst (snd (snd (restoreFromBackup qt clk io path fs db)))))
       \<and> keysMatch (m_devices (fst (snd (removeDevices ks db))))
       \<and> keysMatch (m_devices (fst (clearAllDevices db)))
       \<and> keysMatch (m_devices (fst (snd (setTrustLevel k level db))))
       \<and> keysMatch (m_devices (fst (snd (setAutoMount k flag db))))
       \<and> keysMatch (m_devices (fst (snd (updateLastSeen now k db))))
       \<and> keysMatch (m_devices (fst (compact db))))"
proof -
  have e: "keysMatch (m_devices (db\<lparr>m_devices := []\<rparr>))"
          "\<not> contains (m_devices (db\<lparr>m_devices := []\<rparr>)) []"
    by (simp_all add: keysMatch_Nil contains_def)
  show ?thesis
    using loadFromFile_keysMatch [OF e(1)] loadFromFile_no_empty [OF e(2)]
      loadFromFile_keysMatch [of db qt io fs] loadFromFile_no_empty [of db qt io fs]
      crud_keysMatch [of db r now k h a ms] import_keysMatch [of db qt io path merge fs]
      restore_keysMatch [of db qt clk io path fs] removeDevices_keysMatch [of db ks]
      setters_keysMatch [of db k level flag now]
    by blast
qed

text \<open>
  A file with one record under the id \<open>X\<close> and one record without an id, loaded and
  then imported into the example store.
\<close>

theorem table_keys_are_unique_ids_witness:
  "(let fs = [(''/cfg/devices.json'',
               \<lparr>contents = JsonText (JObject [(''devices'',
                    JArray [JObject [(''unique_id'', JString ''X'')], JObject []])]),
                lastModified = 500, ownerOnly = True\<rparr>)]
    in keysMatch (m_devices exampleDb)
       \<and> \<not> contains (m_devices exampleDb) []
       \<and> keysMatch (m_devices (snd (loadFromFile exampleQt exampleIo fs exampleDb)))
       \<and> \<not> contains (m_devices (snd (loadFromFile exampleQt exampleIo fs exampleDb))) []
       \<and> keysMatch (m_devices (fst (snd (addDevice exampleRecord exampleDb))))
       \<and> keysMatch (m_devices (fst (snd
            (importFromFile exampleQt exampleIo ''/cfg/devices.json'' True fs exampleDb))))
       \<and> keysMatch (m_devices (fst (snd (snd
            (restoreFromBackup exampleQt (exampleClock 3000) exampleIo ''/cfg/devices.json''
               fs exampleDb))))))"
proof -
  have k: "keysMatch (m_devices exampleDb)"
    by (simp add: keysMatch_def exampleDb_def exampleRecord_def)
  have n: "\<not> contains (m_devices exampleDb) []"
    by (simp add: contains_def exampleDb_def)
  show ?thesis
    using k n
      table_keys_are_unique_ids
        [where qt = exampleQt and io = exampleIo and db = exampleDb and r = exampleRecord
           and path = "''/cfg/devices.json''" and merge = True and clk = "exampleClock 3000"
           and fs = "[(''/cfg/devices.json'',
               \<lparr>contents = JsonText (JObject [(''devices'',
                    JArray [JObject [(''unique_id'', JString ''X'')], JObject []])]),
                lastModified = 500, ownerOnly = True\<rparr>)]"]
    by (simp add: Let_def)
qed

subsection \<open>The whitelist store: saving and reloading\<close>

lemma DeviceInfo_toJson_eq:
  "DeviceInfo_toJson d =
     [(''device_node'', JString (deviceNode d)),
      (''serial'', JString (serial d)),
      (''vendor'', JString (vendor d)),
      (''model'', JString (model d)),
      (''label'', JString (label d)),
      (''fs_type'', JString (fsType d)),
      (''size_bytes'', JNumber (sint (sizeBytes d)))]"
  by (simp add: DeviceInfo_toJson_def assign_all_def)

lemma sint64_range: "- (2 ^ 63) \<le> sint (w :: 64 word) \<and> sint w < 2 ^ 63"
  using sint_ge [of w] sint_lt [of w] by simp

lemma sint32_range: "- (2 ^ 31) \<le> sint (w :: 32 word) \<and> sint w < 2 ^ 31"
  using sint_ge [of w] sint_lt [of w] by simp

lemma toInteger_sint: "word_of_int (toInteger (JNumber (sint (w :: 64 word)))) = w"
  using sint64_range [of w] by (simp add: toInteger_def)

lemma toInt_sint: "word_of_int (toInt (JNumber (sint (w :: 32 word)))) = w"
  using sint32_range [of w] by (simp add: toInt_def)

lemma DeviceInfo_round_trip: "DeviceInfo_fromJson (DeviceInfo_toJson d) = persistedInfo d"
  by (simp add: DeviceInfo_toJson_eq DeviceInfo_fromJson_def value_at_def toString_or_def
      toInteger_sint persistedInfo_def DeviceInfo_default_def)

lemma DeviceRecord_toJson_eq:
  "DeviceRecord_toJson qt r =
     [(''unique_id'', JString (uniqueId r)),
      (''hash'', JString (hash r)),
      (''hash_algorithm'', JString (hashAlgorithm r)),
      (''first_seen'', JString (toISODate qt (firstSeen r))),
      (''last_seen'', JString (toISODate qt (lastSeen r))),
      (''last_hashed'', JString (toISODate qt (lastHashed r))),
      (''hash_duration_ms'', JNumber (sint (hashDurationMs r))),
      (''trust_level'', JNumber (sint (trustLevel r))),
      (''auto_mount'', JBool (autoMount r)),
      (''notes'', JString (notes' r)),
      (''device_info'', JObject (DeviceInfo_toJson (lastKnownInfo r)))]"
  by (simp add: DeviceRecord_toJson_def assign_all_def)

lemma DeviceRecord_round_trip:
  "DeviceRecord_fromJson qt (toObject (JObject (DeviceRecord_toJson qt r))) = reparsed qt r"
  by (simp add: DeviceRecord_toJson_eq DeviceRecord_fromJson_def value_at_def toString_or_def
      toInteger_sint toInt_sint toBool_def toObject_def DeviceInfo_round_trip reparsed_def)

lemma uniqueId_reparsed: "uniqueId (reparsed qt r) = uniqueId r"
  by (simp add: reparsed_def)

lemma loadRecord_toJson:
  "loadRecord qt h (JObject (DeviceRecord_toJson qt r)) =
     (if uniqueId r \<noteq> [] then insert_h (uniqueId r) (reparsed qt r) h else h)"
  by (simp add: loadRecord_def DeviceRecord_round_trip uniqueId_reparsed Let_def)

lemma load_fold_lookup:
  "map_of (foldl (loadRecord qt) h0 (map (\<lambda>r. JObject (DeviceRecord_toJson qt r)) rs)) k =
     (case filter (\<lambda>r. uniqueId r = k \<and> k \<noteq> []) rs of
        [] \<Rightarrow> map_of h0 k
      | x # xs \<Rightarrow> Some (reparsed qt (last (x # xs))))"
proof (induction rs rule: rev_induct)
  case Nil
  show ?case by simp
next
  case (snoc r rs)
  show ?case
    using snoc by (auto simp: loadRecord_toJson map_of_insert_h split: list.splits)
qed

lemma filter_absent:
  "keysMatch h \<Longrightarrow> k \<notin> fst ` set h \<Longrightarrow> filter (\<lambda>r. uniqueId r = k \<and> P) (map snd h) = []"
  by (induction h) (auto simp: keysMatch_def)

lemma filter_unique:
  "keysMatch h \<Longrightarrow> distinct (map fst h) \<Longrightarrow>
     filter (\<lambda>r. uniqueId r = k \<and> P) (map snd h) =
       (case map_of h k of None \<Rightarrow> [] | Some r \<Rightarrow> if P then [r] else [])"
proof (induction h)
  case Nil
  show ?case by simp
next
  case (Cons a h)
  have km: "keysMatch h" and ua: "uniqueId (snd a) = fst a"
    using Cons.prems(1) by (simp_all add: keysMatch_def)
  have d: "distinct (map fst h)" and na: "fst a \<notin> fst ` set h"
    using Cons.prems(2) by simp_all
  show ?case
  proof (cases "fst a = k")
    case True
    then have "filter (\<lambda>r. uniqueId r = k \<and> P) (map snd h) = []"
      using filter_absent [OF km, of k P] na by simp
    then show ?thesis using True ua by (cases a) auto
  next
    case False
    then show ?thesis using Cons.IH [OF km d] ua by (cases a) auto
  qed
qed

lemma writeToFile_contents:
  assumes "writeToFile qt clk io fs db = (True, fs', q)"
  shows "map_option contents (map_of fs' (m_databasePath db)) =
           Some (JsonText (JObject
             [(''version'', JString DB_VERSION),
              (''last_modified'', JString (toISODate qt (currentDateTime clk))),
              (''device_count'', JNumber (sint (of_nat (length (m_devices db)) :: int32_t))),
              (''devices'', JArray (map (\<lambda>r. JObject (DeviceRecord_toJson qt r))
                                        (values_h (m_devices db))))]))"
  using assms
  by (auto simp: writeToFile_def Let_def assign_all_def file_rename_def file_remove_def
      map_of_modify_h map_of_insert_h map_of_remove_h contains_def
      split: if_splits option.splits prod.splits)

lemma save_reload_lookup:
  assumes inv: "keysMatch (m_devices db)" "distinct (keys_h (m_devices db))"
      and saved: "save qt clk io fs db = (True, fs', db', q)"
      and readable: "openReadOk io'"
  shows "fst (reload qt io' fs' db')
       \<and> (\<forall>k. getDevice (fst (snd (reload qt io' fs' db'))) k =
                (if k = [] then None else map_option (reparsed qt) (getDevice db k)))"
proof -
  from saved obtain q0 where w: "writeToFile qt clk io fs db = (True, fs', q0)"
    and i: "m_initialized db"
    and db': "db' = db\<lparr>m_modified := False, m_lastSaved := Some (currentDateTime clk)\<rparr>"
    by (auto simp: save_def Let_def split: if_splits prod.splits)
  have c: "file_read io' (m_databasePath db') fs' =
           Some (JsonText (JObject
             [(''version'', JString DB_VERSION),
              (''last_modified'', JString (toISODate qt (currentDateTime clk))),
              (''device_count'', JNumber (sint (of_nat (length (m_devices db)) :: int32_t))),
              (''devices'', JArray (map (\<lambda>r. JObject (DeviceRecord_toJson qt r))
                                        (values_h (m_devices db))))]))"
    using writeToFile_contents [OF w] readable by (simp add: file_read_def db')
  have l: "loadFromFile qt io' fs' (db'\<lparr>m_devices := []\<rparr>) =
           (True, db'\<lparr>m_devices := foldl (loadRecord qt) []
                      (map (\<lambda>r. JObject (DeviceRecord_toJson qt r)) (values_h (m_devices db)))\<rparr>)"
    using c by (simp add: loadFromFile_def Let_def toObject_def value_at_def toArray_def)
  have r: "reload qt io' fs' db' =
            (True,
             db'\<lparr>m_devices := foldl (loadRecord qt) []
                      (map (\<lambda>r. JObject (DeviceRecord_toJson qt r)) (values_h (m_devices db))),
                 m_modified := False\<rparr>,
             [DatabaseLoaded (length (foldl (loadRecord qt) []
                      (map (\<lambda>r. JObject (DeviceRecord_toJson qt r)) (values_h (m_devices db)))))])"
    using i l by (simp add: reload_def db')
  have "getDevice (fst (snd (reload qt io' fs' db'))) k =
          (if k = [] then None else map_option (reparsed qt) (getDevice db k))" for k
  proof -
    have f: "filter (\<lambda>r. uniqueId r = k \<and> k \<noteq> []) (map snd (m_devices db)) =
               (case map_of (m_devices db) k of
                  None \<Rightarrow> [] | Some r \<Rightarrow> if k \<noteq> [] then [r] else [])"
      using inv by (intro filter_unique) (simp_all add: keys_h_def)
    have "map_of (foldl (loadRecord qt) []
                   (map (\<lambda>r. JObject (DeviceRecord_toJson qt r)) (map snd (m_devices db)))) k =
            (if k = [] then None else map_option (reparsed qt) (map_of (m_devices db) k))"
      unfolding load_fold_lookup f by (simp split: option.splits)
    then show ?thesis
      by (simp add: r getDevice_def values_h_def del: map_map)
  qed
  then show ?thesis
    by (simp add: r)
qed

lemma saveThenReload_lookup:
  assumes "keysMatch (m_devices db)" "distinct (keys_h (m_devices db))"
      and "fst (saveThenReload qt clk io io' fs db)" "openReadOk io'"
  shows "fst (snd (saveThenReload qt clk io io' fs db))
       \<and> (\<forall>k. getDevice (snd (snd (saveThenReload qt clk io io' fs db))) k =
                (if k = [] then None else map_option (reparsed qt) (getDevice db k)))"
proof -
  obtain saved fs' db' q where s: "save qt clk io fs db = (saved, fs', db', q)"
    by (metis prod.collapse)
  then have "saved"
    using assms(3) by (simp add: saveThenReload_def split: prod.splits)
  then have s': "save qt clk io fs db = (True, fs', db', q)"
    using s by simp
  have eq: "saveThenReload qt clk io io' fs db =
              (True, fst (reload qt io' fs' db'), fst (snd (reload qt io' fs' db')))"
    using s' by (simp add: saveThenReload_def split: prod.splits)
  show ?thesis
    using save_reload_lookup [OF assms(1,2) s' assms(4)] by (simp add: eq)
qed

lemma example_save_succeeds:
  "fst (saveThenReload exampleQt (exampleClock 3000) exampleIo exampleIo exampleFs exampleDb)"
  by (simp add: saveThenReload_def save_def writeToFile_def Let_def exampleIo_def exampleFs_def
      exampleDb_def exampleClock_def contains_def file_remove_def file_rename_def remove_h_def
      split: prod.splits)

lemma example_table_invariant:
  "keysMatch (m_devices exampleDb)" "distinct (keys_h (m_devices exampleDb))"
  "openReadOk exampleIo"
  by (simp_all add: keysMatch_def keys_h_def exampleDb_def exampleRecord_def exampleIo_def)

text \<open>
  C9, as the claim states it, fails: the record of the example store holds a snapshot
  with the parent device \<open>/dev/sdb\<close>, a mount point and the mounted flag; after \<open>save()\<close>
  and \<open>reload()\<close>, which both succeed, the record of the same id is another one, its
  parent device empty.
\<close>

theorem save_reload_drops_snapshot_fields_counterexample:
  "fst (saveThenReload exampleQt (exampleClock 3000) exampleIo exampleIo exampleFs exampleDb)
   \<and> fst (snd (saveThenReload exampleQt (exampleClock 3000) exampleIo exampleIo exampleFs
                exampleDb))
   \<and> getDevice (snd (snd (saveThenReload exampleQt (exampleClock 3000) exampleIo exampleIo
                exampleFs exampleDb))) ''S1_Acme_Stick''
       \<noteq> getDevice exampleDb ''S1_Acme_Stick''
   \<and> map_option (\<lambda>r. parentDevice (lastKnownInfo r)) (getDevice exampleDb ''S1_Acme_Stick'')
       = Some ''/dev/sdb''
   \<and> map_option (\<lambda>r. parentDevice (lastKnownInfo r))
        (getDevice (snd (snd (saveThenReload exampleQt (exampleClock 3000) exampleIo exampleIo
                exampleFs exampleDb))) ''S1_Acme_Stick'')
       = Some []"
proof -
  have g: "getDevice exampleDb ''S1_Acme_Stick'' = Some exampleRecord"
    by (simp add: getDevice_def exampleDb_def)
  have p: "parentDevice (lastKnownInfo exampleRecord) = ''/dev/sdb''"
          "parentDevice (lastKnownInfo (reparsed exampleQt exampleRecord)) = []"
    by (simp_all add: exampleRecord_def exampleInfo_def reparsed_def persistedInfo_def)
  then have d: "reparsed exampleQt exampleRecord \<noteq> exampleRecord"
    by auto
  have l: "fst (snd (saveThenReload exampleQt (exampleClock 3000) exampleIo exampleIo exampleFs
                       exampleDb))
           \<and> getDevice (snd (snd (saveThenReload exampleQt (exampleClock 3000) exampleIo
                       exampleIo exampleFs exampleDb))) ''S1_Acme_Stick''
               = Some (reparsed exampleQt exampleRecord)"
    using saveThenReload_lookup [OF example_table_invariant(1,2) example_save_succeeds
            example_table_invariant(3)] g
    by simp
  show ?thesis
    using example_save_succeeds l g p d by simp
qed

text \<open>
  C9, amended. Let the keys of the table be distinct and equal to the ids of their
  records, and let \<open>save()\<close> succeed. Then \<open>reload()\<close> of the file (which can be opened)
  succeeds, and the table it builds holds, under every non-empty id, the record of
  before with every field unchanged except that each of the three time stamps is the one
  parsed from its ISO-8601 text and the snapshot keeps its seven serialized fields only
  (\<open>reparsed\<close>); a record with an empty id is not loaded.
\<close>

theorem save_reload_round_trip_of_serialized_fields:
  assumes "keysMatch (m_devices db)" "distinct (keys_h (m_devices db))"
      and "fst (saveThenReload qt clk io io' fs db)" "openReadOk io'"
  shows "fst (snd (saveThenReload qt clk io io' fs db))
       \<and> (\<forall>k. getDevice (snd (snd (saveThenReload qt clk io io' fs db))) k =
                (if k = [] then None else map_option (reparsed qt) (getDevice db k)))"
  using assms by (rule saveThenReload_lookup)

theorem save_reload_round_trip_of_serialized_fields_witness:
  "keysMatch (m_devices exampleDb) \<and> distinct (keys_h (m_devices exampleDb))
   \<and> fst (saveThenReload exampleQt (exampleClock 3000) exampleIo exampleIo exampleFs exampleDb)
   \<and> openReadOk exampleIo
   \<and> fst (snd (saveThenReload exampleQt (exampleClock 3000) exampleIo exampleIo exampleFs
                exampleDb))
   \<and> getDevice (snd (snd (saveThenReload exampleQt (exampleClock 3000) exampleIo exampleIo
                exampleFs exampleDb))) ''S1_Acme_Stick''
       = Some (reparsed exampleQt exampleRecord)
   \<and> hash (reparsed exampleQt exampleRecord) = ''ab12''
   \<and> deviceNode (lastKnownInfo (reparsed exampleQt exampleRecord)) = ''/dev/sdb1''"
proof -
  have g: "getDevice exampleDb ''S1_Acme_Stick'' = Some exampleRecord"
    by (simp add: getDevice_def exampleDb_def)
  have f: "hash (reparsed exampleQt exampleRecord) = ''ab12''"
          "deviceNode (lastKnownInfo (reparsed exampleQt exampleRecord)) = ''/dev/sdb1''"
    by (simp_all add: exampleRecord_def exampleInfo_def reparsed_def persistedInfo_def)
  show ?thesis
    using save_reload_round_trip_of_serialized_fields
            [OF example_table_invariant(1,2) example_save_succeeds example_table_invariant(3)]
      example_table_invariant example_save_succeeds g f
    by simp
qed

subsection \<open>The whitelist store: backups\<close>

lemma mset_insertByTime: "mset (insertByTime x ys) = add_mset x (mset ys)"
  by (induction ys) auto

lemma mset_sortByTime: "mset (sortByTime xs) = mset xs"
  by (induction xs) (auto simp: sortByTime_def mset_insertByTime)

lemma set_sortByTime: "set (sortByTime xs) = set xs"
  using mset_sortByTime [of xs] by (metis set_mset_mset)

lemma length_sortByTime: "length (sortByTime xs) = length xs"
  using mset_sortByTime [of xs] by (metis size_mset)

lemma newerFirst_ge: "newerFirst a b \<Longrightarrow> lastModified (snd b) \<le> lastModified (snd a)"
  by (auto simp: newerFirst_def)

lemma not_newerFirst_le: "\<not> newerFirst a b \<Longrightarrow> lastModified (snd a) \<le> lastModified (snd b)"
  by (auto simp: newerFirst_def)

lemma set_insertByTime: "set (insertByTime x ys) = insert x (set ys)"
  using mset_insertByTime [of x ys] by (metis set_mset_add_mset_insert set_mset_mset)

lemma sorted_insertByTime:
  "sorted_wrt (\<lambda>a b. lastModified (snd b) \<le> lastModified (snd a)) ys \<Longrightarrow>
   sorted_wrt (\<lambda>a b. lastModified (snd b) \<le> lastModified (snd a)) (insertByTime x ys)"
proof (induction ys)
  case Nil
  show ?case by simp
next
  case (Cons y ys)
  show ?case
  proof (cases "newerFirst x y")
    case True
    then show ?thesis
      using Cons.prems newerFirst_ge [OF True] by (auto intro: order_trans)
  next
    case False
    then show ?thesis
      using Cons not_newerFirst_le [OF False] by (auto simp: set_insertByTime)
  qed
qed

lemma sorted_sortByTime:
  "sorted_wrt (\<lambda>a b. lastModified (snd b) \<le> lastModified (snd a)) (sortByTime xs)"
proof (induction xs)
  case Nil
  show ?case by (simp add: sortByTime_def)
next
  case (Cons x xs)
  then show ?case
    using sorted_insertByTime [of "sortByTime xs" x] by (simp add: sortByTime_def)
qed

lemma removeWhileOver_filter:
  "removeOk io \<Longrightarrow>
     removeWhileOver io m ys fs = filter (\<lambda>e. fst e \<notin> fst ` set (take (length ys - m) ys)) fs"
proof (induction ys arbitrary: fs)
  case Nil
  show ?case by simp
next
  case (Cons b bs)
  show ?case
  proof (cases "m < length (b # bs)")
    case True
    then have t: "take (Suc (length bs) - m) (b # bs) = b # take (length bs - m) bs"
      by (simp add: Suc_diff_le)
    show ?thesis
      using True Cons by (auto simp: t file_remove_def remove_h_def intro: filter_cong)
  next
    case False
    then show ?thesis by simp
  qed
qed

lemma insert_h_absent: "k \<notin> fst ` set h \<Longrightarrow> insert_h k v h = h @ [(k, v)]"
  by (induction h) auto

lemma keep_newest:
  assumes p: "mset S = mset B" and d: "distinct (map fst B)"
  shows "length (filter (\<lambda>e. fst e \<notin> fst ` set (drop m S)) B) = min m (length B)"
    and "set (filter (\<lambda>e. fst e \<notin> fst ` set (drop m S)) B) = set (take m S)"
proof -
  let ?Q = "\<lambda>e. fst e \<notin> fst ` set (drop m S)"
  have dS: "distinct (map fst S)"
    using p d by (metis mset_eq_imp_distinct_iff mset_map)
  then have "distinct (map fst (take m S) @ map fst (drop m S))"
    by (metis append_take_drop_id map_append)
  then have disj: "fst ` set (take m S) \<inter> fst ` set (drop m S) = {}"
    by simp
  have a: "filter ?Q (take m S) = take m S"
    using disj by (auto simp: filter_id_conv)
  have b: "filter ?Q (drop m S) = []"
    by (auto simp: filter_empty_conv)
  have fS: "filter ?Q S = take m S"
    using a b by (metis append_Nil2 append_take_drop_id filter_append)
  have "mset (filter ?Q B) = mset (filter ?Q S)"
    using p by (metis mset_filter)
  then have m: "mset (filter ?Q B) = mset (take m S)"
    by (simp add: fS)
  show "length (filter ?Q B) = min m (length B)"
    using m p by (metis length_take min.commute size_mset)
  show "set (filter ?Q B) = set (take m S)"
    using m by (metis set_mset_mset)
qed

lemma lastSection_no_slash: "CHR ''/'' \<notin> set (lastSection s)"
  by (auto simp: lastSection_def dest: set_takeWhileD)

lemma fileName_append:
  assumes "CHR ''/'' \<notin> set name"
  shows "fileName (d @ ''/'' @ name) = name"
proof -
  have "takeWhile (\<lambda>c. c \<noteq> CHR ''/'') (rev name @ CHR ''/'' # rev d) = rev name"
    using assms by (subst takeWhile_append2) auto
  then show ?thesis
    by (simp add: fileName_def lastSection_def)
qed

lemma absolutePath_append:
  assumes "CHR ''/'' \<notin> set name" "d \<noteq> []"
  shows "absolutePath (d @ ''/'' @ name) = d"
proof -
  have "fileName (d @ ''/'' @ name) = name"
    using assms(1) by (rule fileName_append)
  then show ?thesis
    using assms(2) by (simp add: absolutePath_def Let_def)
qed

lemma absolutePath_nonempty: "absolutePath p \<noteq> []"
  by (simp add: absolutePath_def Let_def)

lemma baseName_no_slash: "CHR ''/'' \<notin> set (baseName p)"
  using lastSection_no_slash [of p] by (auto simp: baseName_def fileName_def dest: set_takeWhileD)

lemma suffix_no_slash: "CHR ''/'' \<notin> set (suffix p)"
  using lastSection_no_slash [of p] by (auto simp: suffix_def fileName_def dest: set_takeWhileD)

lemma globParse_literal:
  "wildcardFree lit \<Longrightarrow> globParse None (lit @ ''*'') = Some (map Lit lit @ [Star])"
  by (induction lit) (auto simp: wildcardFree_def)

lemma globMatch_literal:
  "globMatch (map Lit lit @ items) s =
     (length lit \<le> length s
      \<and> map toCaseFolded (take (length lit) s) = map toCaseFolded lit
      \<and> globMatch items (drop (length lit) s))"
proof (induction lit arbitrary: s)
  case Nil
  show ?case by simp
next
  case (Cons p lit)
  show ?case by (cases s) (auto simp: Cons)
qed

lemma globMatch_star: "globMatch [Star] s = (CHR ''/'' \<notin> set s)"
  by (induction s) auto

lemma matchesFilter_literal_star:
  "wildcardFree lit \<Longrightarrow>
     matchesFilter (lit @ ''*'') name =
       (length lit \<le> length name
        \<and> map toCaseFolded (take (length lit) name) = map toCaseFolded lit
        \<and> CHR ''/'' \<notin> set (drop (length lit) name))"
  by (simp add: matchesFilter_def globParse_literal globMatch_literal globMatch_star)

lemma backupFilter_prefix: "backupFilter db = backupPrefix db @ ''*''"
  by (simp add: backupFilter_def backupPrefix_def)

lemma wildcardFree_backupPrefix:
  "wildcardFree (baseName (m_databasePath db)) \<Longrightarrow> wildcardFree (backupPrefix db)"
  by (simp add: wildcardFree_def backupPrefix_def)

lemma matchesFilter_backup_name:
  assumes "wildcardFree (baseName (m_databasePath db))" "CHR ''/'' \<notin> set rest"
  shows "matchesFilter (backupFilter db) (backupPrefix db @ rest)"
  unfolding backupFilter_prefix
  using assms(2) matchesFilter_literal_star [OF wildcardFree_backupPrefix [OF assms(1)]]
  by simp

lemma backup_name_not_hidden: "\<not> isHidden (backupPrefix db @ rest)"
proof (cases "baseName (m_databasePath db)")
  case Nil
  then show ?thesis by (simp add: isHidden_def backupPrefix_def)
next
  case (Cons c cs)
  then have "c \<in> set (takeWhile (\<lambda>c. c \<noteq> CHR ''.'') (fileName (m_databasePath db)))"
    by (simp add: baseName_def)
  then have "c \<noteq> CHR ''.''"
    by (rule set_takeWhileD [THEN conjunct2])
  then show ?thesis
    using Cons by (simp add: isHidden_def backupPrefix_def)
qed

lemma createBackup_success:
  assumes "createBackup qt clk io [] fs db = (path, fs1, db1)" "path \<noteq> []"
  shows "path = absolutePath (m_databasePath db) @ ''/'' @ backupPrefix db
                  @ toStamp qt (currentDateTime clk) @ ''.'' @ suffix (m_databasePath db)"
    and "\<not> contains fs path"
    and "\<exists>f :: QFileData. fs1 = removeWhileOver io MAX_BACKUP_COUNT
                  (rev (entryInfoList (absolutePath path) (backupFilter db) (fs @ [(path, f)])))
                  (fs @ [(path, f)])"
    and "m_databasePath db1 = m_databasePath db"
  using assms
  by (auto simp: createBackup_def Let_def file_copy_def contains_def insert_h_absent
      map_of_eq_None_iff split: if_splits option.splits prod.splits)

lemma createBackup_step:
  assumes d: "distinct (keys_h fs)" and rm: "removeOk io"
      and wf: "wildcardFree (baseName (m_databasePath db))"
      and st: "CHR ''/'' \<notin> set (toStamp qt (currentDateTime clk))"
      and cb: "createBackup qt clk io [] fs db = (path, fs1, db1)" and ok: "path \<noteq> []"
  shows "distinct (keys_h fs1)"
    and "m_databasePath db1 = m_databasePath db"
    and "length (backupFiles db fs1) = min 5 (Suc (length (backupFiles db fs)))"
    and "\<forall>e \<in> set (backupFiles db fs). e \<notin> set (backupFiles db fs1) \<longrightarrow>
           (\<forall>k \<in> set (backupFiles db fs1). lastModified (snd e) \<le> lastModified (snd k))"
proof -
  let ?dir = "absolutePath (m_databasePath db)"
  let ?pfx = "backupPrefix db"
  let ?name = "?pfx @ toStamp qt (currentDateTime clk) @ ''.'' @ suffix (m_databasePath db)"
  let ?pat = "backupFilter db"
  let ?P = "\<lambda>e. absolutePath (fst e) = ?dir \<and> \<not> isHidden (fileName (fst e))
                  \<and> matchesFilter ?pat (fileName (fst e))"
  have path: "path = ?dir @ ''/'' @ ?name"
    using createBackup_success(1) [OF cb ok] by simp
  have nosl: "CHR ''/'' \<notin> set ?name"
    using st baseName_no_slash suffix_no_slash by (auto simp: backupPrefix_def)
  have ap: "absolutePath path = ?dir"
    unfolding path using nosl absolutePath_nonempty by (rule absolutePath_append)
  have fn: "fileName path = ?name"
    unfolding path using nosl by (rule fileName_append)
  have rest: "CHR ''/'' \<notin> set (toStamp qt (currentDateTime clk) @ ''.'' @ suffix (m_databasePath db))"
    using st suffix_no_slash by auto
  have Pnew: "?P (path, f)" for f :: QFileData
    using ap fn matchesFilter_backup_name [OF wf rest] backup_name_not_hidden [of db]
    by simp
  have fresh: "path \<notin> fst ` set fs"
    using createBackup_success(2) [OF cb ok] by (simp add: contains_def map_of_eq_None_iff)
  obtain f :: QFileData where fs1: "fs1 = removeWhileOver io MAX_BACKUP_COUNT
        (rev (entryInfoList (absolutePath path) ?pat (fs @ [(path, f)]))) (fs @ [(path, f)])"
    using createBackup_success(3) [OF cb ok] by blast
  let ?fs' = "fs @ [(path, f)]"
  let ?B = "filter ?P ?fs'"
  let ?S = "sortByTime ?B"
  let ?Q = "\<lambda>e. fst e \<notin> fst ` set (drop 5 ?S)"
  have S: "entryInfoList (absolutePath path) ?pat ?fs' = ?S"
    by (simp add: entryInfoList_def ap)
  have fs1': "fs1 = filter ?Q ?fs'"
  proof -
    have "take (length (rev ?S) - 5) (rev ?S) = rev (drop 5 ?S)"
      by (simp add: rev_drop)
    then have "set (take (length (rev ?S) - MAX_BACKUP_COUNT) (rev ?S)) = set (drop 5 ?S)"
      by (simp only: MAX_BACKUP_COUNT_def set_rev)
    then show ?thesis
      unfolding fs1 S removeWhileOver_filter [OF rm] by (simp only:)
  qed
  have d': "distinct (map fst ?fs')"
    using d fresh by (simp add: keys_h_def)
  show "distinct (keys_h fs1)"
    unfolding fs1' keys_h_def using d' by (rule distinct_map_filter)
  show "m_databasePath db1 = m_databasePath db"
    by (rule createBackup_success(4) [OF cb ok])
  have dB: "distinct (map fst ?B)"
    using d' by (rule distinct_map_filter)
  have "filter ?P (filter ?Q ?fs') = filter ?Q (filter ?P ?fs')"
    by (auto intro: filter_cong)
  then have bf1: "backupFiles db fs1 = sortByTime (filter ?Q ?B)"
    unfolding fs1' backupFiles_def entryInfoList_def by (simp only:)
  have B: "?B = filter ?P fs @ [(path, f)]"
    using Pnew by simp
  have lenB: "length ?B = Suc (length (backupFiles db fs))"
    unfolding B by (simp add: backupFiles_def entryInfoList_def length_sortByTime)
  show "length (backupFiles db fs1) = min 5 (Suc (length (backupFiles db fs)))"
    unfolding bf1 length_sortByTime
    using keep_newest(1) [OF mset_sortByTime dB, of 5] lenB by simp
  have kept: "set (backupFiles db fs1) = set (take 5 ?S)"
    unfolding bf1 set_sortByTime
    using keep_newest(2) [OF mset_sortByTime dB, of 5] by simp
  have old: "set (backupFiles db fs) \<subseteq> set ?S"
    unfolding B by (auto simp: backupFiles_def entryInfoList_def set_sortByTime)
  have "sorted_wrt (\<lambda>a b. lastModified (snd b) \<le> lastModified (snd a)) (take 5 ?S @ drop 5 ?S)"
    using sorted_sortByTime [of ?B] by simp
  then have ord: "\<forall>k \<in> set (take 5 ?S). \<forall>e \<in> set (drop 5 ?S).
                    lastModified (snd e) \<le> lastModified (snd k)"
    unfolding sorted_wrt_append by blast
  show "\<forall>e \<in> set (backupFiles db fs). e \<notin> set (backupFiles db fs1) \<longrightarrow>
           (\<forall>k \<in> set (backupFiles db fs1). lastModified (snd e) \<le> lastModified (snd k))"
  proof (intro ballI impI)
    fix e k
    assume e: "e \<in> set (backupFiles db fs)" and gone: "e \<notin> set (backupFiles db fs1)"
       and k: "k \<in> set (backupFiles db fs1)"
    have "e \<in> set ?S"
      using e old by blast
    then have "e \<in> set (take 5 ?S) \<union> set (drop 5 ?S)"
      by (simp only: set_append [symmetric] append_take_drop_id)
    then have "e \<in> set (drop 5 ?S)"
      using gone kept by blast
    then show "lastModified (snd e) \<le> lastModified (snd k)"
      using ord k kept by blast
  qed
qed

lemma ex_path:
  "absolutePath ''/cfg/devices.json'' = ''/cfg''"
  "baseName ''/cfg/devices.json'' = ''devices''"
  "suffix ''/cfg/devices.json'' = ''json''"
  by (simp_all add: absolutePath_def baseName_def suffix_def fileName_def lastSection_def)

lemma ex_filter:
  "\<not> matchesFilter ''devices_backup_*'' ''devices.json''"
  "matchesFilter ''devices_backup_*'' ''devices_backup_1.json''"
  "matchesFilter ''devices_backup_*'' ''devices_backup_2.json''"
  "matchesFilter ''devices_backup_*'' ''devices_backup_3.json''"
  "matchesFilter ''devices_backup_*'' ''devices_backup_4.json''"
  "matchesFilter ''devices_backup_*'' ''devices_backup_5.json''"
  "matchesFilter ''devices_backup_*'' ''devices_backup_6.json''"
  by (simp_all add: matchesFilter_def toCaseFolded_def)

lemma first_call:
  "createBackup exampleQt (exampleClock 3000) exampleIo [] exampleFs exampleDb =
     (''/cfg/devices_backup_3.json'',
      exampleFs @ [(''/cfg/devices_backup_3.json'',
                    \<lparr>contents = JsonText (JObject [(''version'', JString ''1.0''),
                                                    (''devices'', JArray [])]),
                     lastModified = 3000, ownerOnly = True\<rparr>)],
      exampleDb\<lparr>m_lastBackup := Some 3000\<rparr>)"
  by (simp add: createBackup_def backupFilter_def ex_filter example_defs Let_def ex_path backupPrefix_def
      file_copy_def contains_def showNat.simps entryInfoList_def sortByTime_def isHidden_def
      fileName_def lastSection_def MAX_BACKUP_COUNT_def absolutePath_def)

lemma createBackup_collision:
  "contains fs (absolutePath (m_databasePath db) @ ''/'' @ backupPrefix db
                  @ toStamp qt (currentDateTime clk) @ ''.'' @ suffix (m_databasePath db))
     \<Longrightarrow> createBackup qt clk io [] fs db = ([], fs, db)"
  by (auto simp: createBackup_def Let_def file_copy_def split: option.splits)

lemma later_calls:
  "createBackup exampleQt (exampleClock 3000) exampleIo []
     (exampleFs @ [(''/cfg/devices_backup_3.json'', f)]) (exampleDb\<lparr>m_lastBackup := Some 3000\<rparr>)
   = ([], exampleFs @ [(''/cfg/devices_backup_3.json'', f)], exampleDb\<lparr>m_lastBackup := Some 3000\<rparr>)"
  by (rule createBackup_collision)
     (simp add: example_defs ex_path backupPrefix_def contains_def showNat.simps)

lemma backupFiles_cong:
  "m_databasePath db' = m_databasePath db \<Longrightarrow> backupFiles db' fs = backupFiles db fs"
  by (simp add: backupFiles_def backupFilter_def)

lemma createBackups_count:
  assumes "distinct (keys_h fs)" "removeOk io" "wildcardFree (baseName (m_databasePath db))"
      and "list_all (\<lambda>clk. CHR ''/'' \<notin> set (toStamp qt (currentDateTime clk))) clks"
      and "createBackups qt io clks fs db = (paths, fs', db')"
      and "list_all (\<lambda>p. p \<noteq> []) paths" "clks \<noteq> []"
  shows "length (backupFiles db fs') = min 5 (length (backupFiles db fs) + length clks)"
  using assms
proof (induction clks arbitrary: fs db paths fs' db')
  case Nil
  then show ?case by simp
next
  case (Cons clk clks)
  obtain path fs1 db1 where cb: "createBackup qt clk io [] fs db = (path, fs1, db1)"
    by (metis prod.collapse)
  obtain paths2 fs2 db2 where rest: "createBackups qt io clks fs1 db1 = (paths2, fs2, db2)"
    by (metis prod.collapse)
  have res: "paths = path # paths2" "fs' = fs2"
    using Cons.prems(5) cb rest by simp_all
  have ok: "path \<noteq> []" and oks: "list_all (\<lambda>p. p \<noteq> []) paths2"
    using Cons.prems(6) res by simp_all
  have st: "CHR ''/'' \<notin> set (toStamp qt (currentDateTime clk))"
    and sts: "list_all (\<lambda>clk. CHR ''/'' \<notin> set (toStamp qt (currentDateTime clk))) clks"
    using Cons.prems(4) by simp_all
  note step = createBackup_step [OF Cons.prems(1,2,3) st cb ok]
  have same: "backupFiles db1 fs'' = backupFiles db fs''" for fs''
    using step(2) by (rule backupFiles_cong)
  have wf1: "wildcardFree (baseName (m_databasePath db1))"
    using Cons.prems(3) step(2) by simp
  show ?case
  proof (cases "clks = []")
    case True
    then show ?thesis
      using step(3) rest res by simp
  next
    case False
    have "length (backupFiles db1 fs2) = min 5 (length (backupFiles db1 fs1) + length clks)"
      using Cons.IH [OF step(1) Cons.prems(2) wf1 sts rest oks False] .
    then show ?thesis
      using step(3) by (simp add: same res)
  qed
qed

text \<open>
  Why the base name must hold no wildcard character: for the database file
  \<^verbatim>\<open>/cfg/dev[1].json\<close> the filter \<^verbatim>\<open>dev[1]_backup_*\<close> lists names that start with
  \<^verbatim>\<open>dev1_backup_\<close>, none of them a backup of this store, so nothing is ever removed and
  six calls that succeed leave six backup files.
\<close>

lemma bracket_filter:
  "matchesFilter ''dev[1]_backup_*'' ''dev1_backup_3.json''"
  "\<not> matchesFilter ''dev[1]_backup_*'' ''dev[1].json''"
  "\<not> matchesFilter ''dev[1]_backup_*'' ''dev[1]_backup_1.json''"
  "\<not> matchesFilter ''dev[1]_backup_*'' ''dev[1]_backup_2.json''"
  "\<not> matchesFilter ''dev[1]_backup_*'' ''dev[1]_backup_3.json''"
  "\<not> matchesFilter ''dev[1]_backup_*'' ''dev[1]_backup_4.json''"
  "\<not> matchesFilter ''dev[1]_backup_*'' ''dev[1]_backup_5.json''"
  "\<not> matchesFilter ''dev[1]_backup_*'' ''dev[1]_backup_6.json''"
  by (simp_all add: matchesFilter_def toCaseFolded_def inClass_def inRange_def otherCase_def)

lemma bracket_path:
  "absolutePath ''/cfg/dev[1].json'' = ''/cfg''"
  "baseName ''/cfg/dev[1].json'' = ''dev[1]''"
  "suffix ''/cfg/dev[1].json'' = ''json''"
  by (simp_all add: absolutePath_def baseName_def suffix_def fileName_def lastSection_def)

lemma bracket_six_backups:
  "fst (createBackups exampleQt exampleIo exampleSixClocks exampleBracketFs exampleBracketDb)
     = [''/cfg/dev[1]_backup_1.json'', ''/cfg/dev[1]_backup_2.json'',
        ''/cfg/dev[1]_backup_3.json'', ''/cfg/dev[1]_backup_4.json'',
        ''/cfg/dev[1]_backup_5.json'', ''/cfg/dev[1]_backup_6.json'']
   \<and> map fst (fst (snd (createBackups exampleQt exampleIo exampleSixClocks exampleBracketFs
                           exampleBracketDb)))
     = [''/cfg/dev[1].json'',
        ''/cfg/dev[1]_backup_1.json'', ''/cfg/dev[1]_backup_2.json'',
        ''/cfg/dev[1]_backup_3.json'', ''/cfg/dev[1]_backup_4.json'',
        ''/cfg/dev[1]_backup_5.json'', ''/cfg/dev[1]_backup_6.json'']"
  by (simp add: createBackup_def backupFilter_def bracket_filter example_defs exampleBracketDb_def
      exampleBracketFs_def exampleSixClocks_def Let_def bracket_path
      backupPrefix_def file_copy_def contains_def showNat.simps entryInfoList_def
      sortByTime_def isHidden_def fileName_def lastSection_def
      MAX_BACKUP_COUNT_def absolutePath_def newerFirst_def file_remove_def remove_h_def)

text \<open>
  C8, as the claim states it, fails: the name of a backup carries the time to the second,
  and \<open>QFile::copy\<close> does not replace a file. Six calls of \<open>createBackup()\<close> within one
  second on an initialized store whose database file exists: the first makes a backup,
  the five others return the empty path, and one backup file remains.
\<close>

theorem six_backups_in_one_second_leave_one_counterexample:
  "m_initialized exampleDb \<and> contains exampleFs (m_databasePath exampleDb)
   \<and> fst (createBackups exampleQt exampleIo (replicate 6 (exampleClock 3000)) exampleFs exampleDb)
       = [''/cfg/devices_backup_3.json'', [], [], [], [], []]
   \<and> map fst (backupFiles exampleDb
        (fst (snd (createBackups exampleQt exampleIo (replicate 6 (exampleClock 3000))
                     exampleFs exampleDb))))
       = [''/cfg/devices_backup_3.json'']"
proof -
  have r: "replicate 6 (exampleClock 3000) =
             [exampleClock 3000, exampleClock 3000, exampleClock 3000,
              exampleClock 3000, exampleClock 3000, exampleClock 3000]"
    by (simp add: numeral_eq_Suc)
  have b: "map fst (backupFiles exampleDb (exampleFs @ [(''/cfg/devices_backup_3.json'', f)]))
             = [''/cfg/devices_backup_3.json'']" for f
    by (simp add: backupFiles_def backupFilter_def ex_filter entryInfoList_def example_defs ex_path
        sortByTime_def isHidden_def fileName_def lastSection_def absolutePath_def)
  have i: "m_initialized exampleDb \<and> contains exampleFs (m_databasePath exampleDb)"
    by (simp add: example_defs contains_def)
  show ?thesis
    unfolding r by (simp add: first_call later_calls b i)
qed

text \<open>
  C8, amended. On a file system with one file per path, with files that can be removed,
  for a database file whose base name holds none of the wildcard characters \<open>*\<close>, \<open>?\<close> and
  \<open>[\<close>, and with time stamps that hold no slash: after six calls of \<open>createBackup()\<close>
  that all succeed (each returns a path), exactly five backup files remain; and after
  any call that succeeds there are \<open>min 5 (n + 1)\<close> backup files, where \<open>n\<close> is their
  number before, and every backup of before that is gone is at most as recently modified
  as every backup that remains. A call whose backup name exists already (on any file
  system \<open>fs'\<close>) returns the empty path and changes nothing.
\<close>

theorem successful_backups_keep_the_five_newest:
  assumes "distinct (keys_h fs)" "removeOk io" "wildcardFree (baseName (m_databasePath db))"
  shows "(length clks = 6
          \<and> list_all (\<lambda>clk. CHR ''/'' \<notin> set (toStamp qt (currentDateTime clk))) clks
          \<and> list_all (\<lambda>p. p \<noteq> []) (fst (createBackups qt io clks fs db))
          \<longrightarrow> length (backupFiles db (fst (snd (createBackups qt io clks fs db)))) = 5)
       \<and> (CHR ''/'' \<notin> set (toStamp qt (currentDateTime clk))
          \<and> fst (createBackup qt clk io [] fs db) \<noteq> []
          \<longrightarrow> length (backupFiles db (fst (snd (createBackup qt clk io [] fs db))))
                = min 5 (Suc (length (backupFiles db fs)))
              \<and> (\<forall>e \<in> set (backupFiles db fs).
                    e \<notin> set (backupFiles db (fst (snd (createBackup qt clk io [] fs db))))
                    \<longrightarrow> (\<forall>k \<in> set (backupFiles db (fst (snd (createBackup qt clk io [] fs db)))).
                           lastModified (snd e) \<le> lastModified (snd k))))
       \<and> (contains fs' (absolutePath (m_databasePath db) @ ''/'' @ backupPrefix db
                          @ toStamp qt (currentDateTime clk) @ ''.'' @ suffix (m_databasePath db))
          \<longrightarrow> createBackup qt clk io [] fs' db = ([], fs', db))"
proof (intro conjI impI)
  assume a: "length clks = 6
          \<and> list_all (\<lambda>clk. CHR ''/'' \<notin> set (toStamp qt (currentDateTime clk))) clks
          \<and> list_all (\<lambda>p. p \<noteq> []) (fst (createBackups qt io clks fs db))"
  then have ne: "clks \<noteq> []" by auto
  have "createBackups qt io clks fs db =
          (fst (createBackups qt io clks fs db), fst (snd (createBackups qt io clks fs db)),
           snd (snd (createBackups qt io clks fs db)))"
    by simp
  from createBackups_count [OF assms _ this _ ne] a
  show "length (backupFiles db (fst (snd (createBackups qt io clks fs db)))) = 5"
    by simp
next
  assume b: "CHR ''/'' \<notin> set (toStamp qt (currentDateTime clk))
          \<and> fst (createBackup qt clk io [] fs db) \<noteq> []"
  have cb: "createBackup qt clk io [] fs db =
          (fst (createBackup qt clk io [] fs db), fst (snd (createBackup qt clk io [] fs db)),
           snd (snd (createBackup qt clk io [] fs db)))"
    by simp
  note step = createBackup_step [OF assms _ cb]
  from b step(3) show "length (backupFiles db (fst (snd (createBackup qt clk io [] fs db))))
                = min 5 (Suc (length (backupFiles db fs)))"
    by blast
  from b step(4) show "\<forall>e \<in> set (backupFiles db fs).
                    e \<notin> set (backupFiles db (fst (snd (createBackup qt clk io [] fs db))))
                    \<longrightarrow> (\<forall>k \<in> set (backupFiles db (fst (snd (createBackup qt clk io [] fs db)))).
                           lastModified (snd e) \<le> lastModified (snd k))"
    by blast
next
  assume "contains fs' (absolutePath (m_databasePath db) @ ''/'' @ backupPrefix db
                          @ toStamp qt (currentDateTime clk) @ ''.'' @ suffix (m_databasePath db))"
  then show "createBackup qt clk io [] fs' db = ([], fs', db)"
    by (rule createBackup_collision)
qed

lemma example_six_backups:
  "fst (createBackups exampleQt exampleIo exampleSixClocks exampleFs exampleDb)
   = [''/cfg/devices_backup_1.json'', ''/cfg/devices_backup_2.json'',
      ''/cfg/devices_backup_3.json'', ''/cfg/devices_backup_4.json'',
      ''/cfg/devices_backup_5.json'', ''/cfg/devices_backup_6.json'']"
  by (simp add: createBackup_def backupFilter_def ex_filter example_defs exampleSixClocks_def Let_def ex_path
      backupPrefix_def file_copy_def contains_def showNat.simps entryInfoList_def
      sortByTime_def isHidden_def fileName_def lastSection_def
      MAX_BACKUP_COUNT_def absolutePath_def newerFirst_def file_remove_def remove_h_def)

theorem successful_backups_keep_the_five_newest_witness:
  "distinct (keys_h exampleFs) \<and> removeOk exampleIo
   \<and> wildcardFree (baseName (m_databasePath exampleDb))
   \<and> length exampleSixClocks = 6
   \<and> list_all (\<lambda>p. p \<noteq> [])
        (fst (createBackups exampleQt exampleIo exampleSixClocks exampleFs exampleDb))
   \<and> length (backupFiles exampleDb
               (fst (snd (createBackups exampleQt exampleIo exampleSixClocks exampleFs
                            exampleDb))))
       = 5
   \<and> fst (createBackup exampleQt (exampleClock 3000) exampleIo [] exampleFs exampleDb) \<noteq> []
   \<and> length (backupFiles exampleDb
               (fst (snd (createBackup exampleQt (exampleClock 3000) exampleIo [] exampleFs
                            exampleDb))))
       = min 5 (Suc (length (backupFiles exampleDb exampleFs)))
   \<and> contains exampleFsWithBackup ''/cfg/devices_backup_3.json''
   \<and> createBackup exampleQt (exampleClock 3000) exampleIo [] exampleFsWithBackup exampleDb
       = ([], exampleFsWithBackup, exampleDb)"
proof -
  have d: "distinct (keys_h exampleFs)"
    by (simp add: keys_h_def exampleFs_def)
  have r: "removeOk exampleIo"
    by (simp add: exampleIo_def)
  have w: "wildcardFree (baseName (m_databasePath exampleDb))"
    by (simp add: exampleDb_def ex_path wildcardFree_def)
  have n: "length exampleSixClocks = 6"
    by (simp add: exampleSixClocks_def)
  have st: "list_all (\<lambda>clk. CHR ''/'' \<notin> set (toStamp exampleQt (currentDateTime clk)))
              exampleSixClocks"
           "CHR ''/'' \<notin> set (toStamp exampleQt (currentDateTime (exampleClock 3000)))"
    by (simp_all add: exampleSixClocks_def exampleQt_def exampleClock_def showNat.simps)
  have ok: "list_all (\<lambda>p. p \<noteq> [])
              (fst (createBackups exampleQt exampleIo exampleSixClocks exampleFs exampleDb))"
    unfolding example_six_backups by simp
  have one: "fst (createBackup exampleQt (exampleClock 3000) exampleIo [] exampleFs exampleDb)
               \<noteq> []"
    unfolding first_call by simp
  have dest: "absolutePath (m_databasePath exampleDb) @ ''/'' @ backupPrefix exampleDb
                @ toStamp exampleQt (currentDateTime (exampleClock 3000)) @ ''.''
                @ suffix (m_databasePath exampleDb)
              = ''/cfg/devices_backup_3.json''"
    by (simp add: exampleDb_def ex_path backupPrefix_def exampleQt_def exampleClock_def
        showNat.simps)
  have c: "contains exampleFsWithBackup ''/cfg/devices_backup_3.json''"
    by (simp add: exampleFsWithBackup_def exampleFs_def contains_def)
  show ?thesis
    using d r w n st ok one c
      successful_backups_keep_the_five_newest
        [OF d r w, of exampleSixClocks exampleQt "exampleClock 3000" exampleFsWithBackup]
    unfolding dest by blast
qed

end
